theory Spec2Isabelle
  imports Main
begin

section \<open>JavaScript strings and the built-ins the downloader calls\<close>

text \<open>
  The downloader (\<^verbatim>\<open>src/services/aipptDownloader.js\<close>) works on JavaScript strings.
  A string is modelled as \<^typ>\<open>string\<close>, read as the UTF-8 bytes of the text: every
  pattern, separator and escape the code looks for is ASCII, and an ASCII byte never
  occurs inside a multi-byte UTF-8 sequence, so searching, splitting and prefix tests
  agree with JavaScript's on UTF-16 code units. Strings with unpaired surrogates are
  outside the model.

  The built-ins below are the platform's, not the repository's; each is written from its
  specification (ECMAScript, the WHATWG URL standard for an already serialised
  \<^verbatim>\<open>http(s)\<close> URL, Node's POSIX \<^verbatim>\<open>path\<close> module), as far as the downloader uses
  it.
\<close>

datatype js_error =
    Error string          \<comment> \<open>\<^verbatim>\<open>new Error(message)\<close> thrown by the downloader itself\<close>
  | URIError              \<comment> \<open>thrown by \<^verbatim>\<open>decodeURIComponent\<close>\<close>
  | EngineError string    \<comment> \<open>rejection of a browser-engine or file-system call\<close>

text \<open>The regular expressions carry the \<^verbatim>\<open>i\<close> flag; without the \<^verbatim>\<open>u\<close> flag a
  non-ASCII character never folds onto an ASCII one, so folding is ASCII's.\<close>

definition ascii_lower :: "char \<Rightarrow> char" where
  "ascii_lower c =
     (case map_of (zip ''ABCDEFGHIJKLMNOPQRSTUVWXYZ'' ''abcdefghijklmnopqrstuvwxyz'') c of
        Some l \<Rightarrow> l
      | None \<Rightarrow> c)"

text \<open>\<open>strip_prefix_ci p s\<close>: the literal \<open>p\<close> matched case-insensitively at the start
  of \<open>s\<close>; the result is what follows it.\<close>

fun strip_prefix_ci :: "string \<Rightarrow> string \<Rightarrow> string option" where
  "strip_prefix_ci [] s = Some s"
| "strip_prefix_ci (p # ps) [] = None"
| "strip_prefix_ci (p # ps) (c # cs) =
     (if ascii_lower p = ascii_lower c then strip_prefix_ci ps cs else None)"

text \<open>\<open>s.includes(t)\<close>.\<close>

fun js_includes :: "string \<Rightarrow> string \<Rightarrow> bool" where
  "js_includes [] t = (t = [])"
| "js_includes (c # cs) t = (take (length t) (c # cs) = t \<or> js_includes cs t)"

text \<open>\<open>/attachment/i.test(s)\<close>.\<close>

fun test_attachment :: "string \<Rightarrow> bool" where
  "test_attachment [] = False"
| "test_attachment (c # cs) =
     (strip_prefix_ci ''attachment'' (c # cs) \<noteq> None \<or> test_attachment cs)"

subsection \<open>The content-disposition pattern\<close>

text \<open>
  \<^verbatim>\<open>/filename\*=UTF-8''([^;]+)|filename="?([^";]+)"?/i.exec(disp)\<close>, line 250.
  \<open>disp_alt1\<close> and \<open>disp_alt2\<close> are the two alternatives anchored at the start of
  their argument, each giving its capture group; both groups are greedy and nothing
  that follows them can fail, so a group is the longest run of allowed characters and
  must be non-empty. In the second alternative the optional opening quote is taken when
  it is there: giving it back leaves the group facing that same quote, which it
  excludes. \<open>disp_match_at\<close> is \<^verbatim>\<open>match[1] || match[2]\<close> for a match at that position,
  and \<open>disp_exec\<close> scans the positions from the left, as \<^verbatim>\<open>exec\<close> does.
\<close>

definition filename_star :: string where
  "filename_star = ''filename*=UTF-8'' @ [CHR 0x27, CHR 0x27]"

definition disp_alt1 :: "string \<Rightarrow> string option" where
  "disp_alt1 s =
     (case strip_prefix_ci filename_star s of
        None \<Rightarrow> None
      | Some r \<Rightarrow>
          (let v = takeWhile (\<lambda>c. c \<noteq> CHR '';'') r in if v = [] then None else Some v))"

definition disp_alt2 :: "string \<Rightarrow> string option" where
  "disp_alt2 s =
     (case strip_prefix_ci ''filename='' s of
        None \<Rightarrow> None
      | Some r \<Rightarrow>
          (let r' = (case r of [] \<Rightarrow> r | c # cs \<Rightarrow> if c = CHR 0x22 then cs else r);
               v = takeWhile (\<lambda>c. c \<noteq> CHR 0x22 \<and> c \<noteq> CHR '';'') r'
           in if v = [] then None else Some v))"

definition disp_match_at :: "string \<Rightarrow> string option" where
  "disp_match_at s = (case disp_alt1 s of Some v \<Rightarrow> Some v | None \<Rightarrow> disp_alt2 s)"

fun disp_exec :: "string \<Rightarrow> string option" where
  "disp_exec [] = None"
| "disp_exec (c # cs) =
     (case disp_match_at (c # cs) of Some v \<Rightarrow> Some v | None \<Rightarrow> disp_exec cs)"

subsection \<open>\<^verbatim>\<open>String.prototype.trim\<close>\<close>

text \<open>White space and line terminators of ECMAScript, as UTF-8: the ASCII ones, U+00A0,
  U+1680, U+2000 to U+200A, U+2028, U+2029, U+202F, U+205F, U+3000 and U+FEFF.\<close>

definition is_ws1 :: "char \<Rightarrow> bool" where
  "is_ws1 a = (a \<in> set [CHR 0x09, CHR 0x0A, CHR 0x0B, CHR 0x0C, CHR 0x0D, CHR 0x20])"

definition is_ws2 :: "char \<Rightarrow> char \<Rightarrow> bool" where
  "is_ws2 a b = (a = CHR 0xC2 \<and> b = CHR 0xA0)"

definition is_ws3 :: "char \<Rightarrow> char \<Rightarrow> char \<Rightarrow> bool" where
  "is_ws3 a b c =
     ((a = CHR 0xE1 \<and> b = CHR 0x9A \<and> c = CHR 0x80) \<or>
      (a = CHR 0xE2 \<and> b = CHR 0x80 \<and>
         ((of_char c :: nat) \<in> {0x80..0x8A} \<or> c \<in> set [CHR 0xA8, CHR 0xA9, CHR 0xAF])) \<or>
      (a = CHR 0xE2 \<and> b = CHR 0x81 \<and> c = CHR 0x9F) \<or>
      (a = CHR 0xE3 \<and> b = CHR 0x80 \<and> c = CHR 0x80) \<or>
      (a = CHR 0xEF \<and> b = CHR 0xBB \<and> c = CHR 0xBF))"

fun trim_start :: "string \<Rightarrow> string" where
  "trim_start (a # b # c # s) =
     (if is_ws1 a then trim_start (b # c # s)
      else if is_ws2 a b then trim_start (c # s)
      else if is_ws3 a b c then trim_start s
      else a # b # c # s)"
| "trim_start [a, b] =
     (if is_ws1 a then trim_start [b] else if is_ws2 a b then [] else [a, b])"
| "trim_start [a] = (if is_ws1 a then [] else [a])"
| "trim_start [] = []"

text \<open>The same from the end, on the reversed string (the bytes of a sequence come in
  reverse order there).\<close>

fun trim_end_rev :: "string \<Rightarrow> string" where
  "trim_end_rev (c # b # a # s) =
     (if is_ws1 c then trim_end_rev (b # a # s)
      else if is_ws2 b c then trim_end_rev (a # s)
      else if is_ws3 a b c then trim_end_rev s
      else c # b # a # s)"
| "trim_end_rev [c, b] =
     (if is_ws1 c then trim_end_rev [b] else if is_ws2 b c then [] else [c, b])"
| "trim_end_rev [c] = (if is_ws1 c then [] else [c])"
| "trim_end_rev [] = []"

definition trim :: "string \<Rightarrow> string" where
  "trim s = rev (trim_end_rev (rev (trim_start s)))"

subsection \<open>\<^verbatim>\<open>decodeURIComponent\<close>\<close>

text \<open>
  ECMAScript's \<^verbatim>\<open>Decode\<close> with an empty set of preserved escapes. A \<^verbatim>\<open>%\<close> must be
  followed by two hexadecimal digits, an octet \<open>B\<close>. With \<open>n\<close> the number of leading
  one bits of \<open>B\<close>: \<open>n = 0\<close> yields the ASCII character; \<open>n = 1\<close> or \<open>n > 4\<close> throws;
  otherwise \<open>n - 1\<close> further escapes must follow, and the octets must be the UTF-8
  encoding of a code point, which is the output (here: those bytes). Everything else
  is copied. Each failure throws \<^verbatim>\<open>URIError\<close>.
\<close>

definition hex_val :: "char \<Rightarrow> nat option" where
  "hex_val c =
     map_of (zip ''0123456789abcdefABCDEF''
                 [0, 1, 2, 3, 4, 5, 6, 7, 8, 9, 10, 11, 12, 13, 14, 15, 10, 11, 12, 13, 14, 15]) c"

definition parse_hex_octet :: "char \<Rightarrow> char \<Rightarrow> nat option" where
  "parse_hex_octet h l =
     (case hex_val h of
        None \<Rightarrow> None
      | Some x \<Rightarrow> (case hex_val l of None \<Rightarrow> None | Some y \<Rightarrow> Some (16 * x + y)))"

definition leading_ones :: "nat \<Rightarrow> nat" where
  "leading_ones b =
     (if b < 0x80 then 0 else if b < 0xC0 then 1 else if b < 0xE0 then 2
      else if b < 0xF0 then 3 else if b < 0xF8 then 4 else 5)"

text \<open>\<open>continuation_octets k s\<close> reads \<open>k\<close> escapes \<^verbatim>\<open>%XX\<close> from the start of \<open>s\<close>.\<close>

fun continuation_octets :: "nat \<Rightarrow> string \<Rightarrow> (nat list \<times> string) option" where
  "continuation_octets 0 s = Some ([], s)"
| "continuation_octets (Suc k) (p # h # l # s) =
     (if p \<noteq> CHR ''%'' then None
      else (case parse_hex_octet h l of
              None \<Rightarrow> None
            | Some b \<Rightarrow>
                (case continuation_octets k s of
                   None \<Rightarrow> None
                 | Some (bs, rest) \<Rightarrow> Some (b # bs, rest))))"
| "continuation_octets (Suc k) s = None"

text \<open>Well-formed UTF-8 of two to four octets (no overlong form, no surrogate, nothing
  above U+10FFFF).\<close>

definition cont_byte :: "nat \<Rightarrow> bool" where
  "cont_byte b = (0x80 \<le> b \<and> b \<le> 0xBF)"

fun valid_utf8 :: "nat list \<Rightarrow> bool" where
  "valid_utf8 [a, b] = (0xC2 \<le> a \<and> a \<le> 0xDF \<and> cont_byte b)"
| "valid_utf8 [a, b, c] =
     (cont_byte c \<and>
      (if a = 0xE0 then 0xA0 \<le> b \<and> b \<le> 0xBF
       else if a = 0xED then 0x80 \<le> b \<and> b \<le> 0x9F
       else 0xE1 \<le> a \<and> a \<le> 0xEF \<and> cont_byte b))"
| "valid_utf8 [a, b, c, d] =
     (cont_byte c \<and> cont_byte d \<and>
      (if a = 0xF0 then 0x90 \<le> b \<and> b \<le> 0xBF
       else if a = 0xF4 then 0x80 \<le> b \<and> b \<le> 0x8F
       else 0xF1 \<le> a \<and> a \<le> 0xF3 \<and> cont_byte b))"
| "valid_utf8 bs = False"

function decodeURIComponent :: "string \<Rightarrow> js_error + string" where
  "decodeURIComponent [] = Inr []"
| "decodeURIComponent (c # s) =
     (if c \<noteq> CHR ''%'' then
        (case decodeURIComponent s of Inl e \<Rightarrow> Inl e | Inr r \<Rightarrow> Inr (c # r))
      else
        (case s of
           h # l # s' \<Rightarrow>
             (case parse_hex_octet h l of
                None \<Rightarrow> Inl URIError
              | Some b \<Rightarrow>
                  (let n = leading_ones b in
                   if n = 0 then
                     (case decodeURIComponent s' of
                        Inl e \<Rightarrow> Inl e
                      | Inr r \<Rightarrow> Inr (char_of b # r))
                   else if n = 1 \<or> n > 4 then Inl URIError
                   else
                     (case continuation_octets (n - 1) s' of
                        None \<Rightarrow> Inl URIError
                      | Some (bs, rest) \<Rightarrow>
                          if \<not> valid_utf8 (b # bs) then Inl URIError
                          else
                            (case decodeURIComponent rest of
                               Inl e \<Rightarrow> Inl e
                             | Inr r \<Rightarrow> Inr (map char_of (b # bs) @ r)))))
         | _ \<Rightarrow> Inl URIError))"
  by pat_completeness auto

lemma continuation_octets_length:
  "continuation_octets k s = Some (bs, rest) \<Longrightarrow> length rest \<le> length s"
  by (induction k s arbitrary: bs rest rule: continuation_octets.induct)
     (force split: if_splits option.splits prod.splits)+

termination decodeURIComponent
  apply (relation "measure length")
     apply simp_all
  apply (metis continuation_octets_length le_imp_less_Suc less_Suc_eq)
  done

subsection \<open>URLs and paths\<close>

text \<open>\<^verbatim>\<open>/^https?:\/\//.test(templateUrl)\<close>, line 38 (no \<^verbatim>\<open>i\<close> flag).\<close>

definition url_ok :: "string \<Rightarrow> bool" where
  "url_ok u = (take 7 u = ''http://'' \<or> take 8 u = ''https://'')"

text \<open>
  \<^verbatim>\<open>new URL(resp.url()).pathname\<close>, line 254. The argument is the URL of a response the
  browser delivered: serialised, absolute, \<^verbatim>\<open>http\<close> or \<^verbatim>\<open>https\<close>. Its path starts
  after the authority and ends before the query or the fragment; an empty path reads
  \<^verbatim>\<open>/\<close>.
\<close>

definition url_pathname :: "string \<Rightarrow> string" where
  "url_pathname u =
     (let after_scheme = drop 3 (dropWhile (\<lambda>c. c \<noteq> CHR '':'') u);
          from_path = dropWhile (\<lambda>c. c \<notin> set ''/?#'') after_scheme;
          p = takeWhile (\<lambda>c. c \<notin> set ''?#'') from_path
      in if p = [] then ''/'' else p)"

text \<open>\<^verbatim>\<open>s.split('/').pop()\<close>: what follows the last slash (all of \<open>s\<close> without one).\<close>

definition last_segment :: "string \<Rightarrow> string" where
  "last_segment s = rev (takeWhile (\<lambda>c. c \<noteq> CHR ''/'') (rev s))"

text \<open>\<open>split_slash s\<close> is \<^verbatim>\<open>s.split('/')\<close>.\<close>

fun split_slash :: "string \<Rightarrow> string list" where
  "split_slash [] = [[]]"
| "split_slash (c # cs) =
     (if c = CHR ''/'' then [] # split_slash cs
      else (case split_slash cs of [] \<Rightarrow> [[c]] | seg # segs \<Rightarrow> (c # seg) # segs))"

text \<open>
  Node's \<^verbatim>\<open>path.posix\<close>. \<open>normalize_segments\<close> is \<^verbatim>\<open>normalizeString\<close> on the
  segments, the result kept reversed in \<open>acc\<close>: empty and \<^verbatim>\<open>.\<close> segments vanish,
  \<^verbatim>\<open>..\<close> removes the segment before it, and is kept only where going above the
  root is allowed (a relative path).
\<close>

fun normalize_segments :: "bool \<Rightarrow> string list \<Rightarrow> string list \<Rightarrow> string list" where
  "normalize_segments allowAbove acc [] = rev acc"
| "normalize_segments allowAbove acc (seg # segs) =
     (if seg = [] \<or> seg = ''.'' then normalize_segments allowAbove acc segs
      else if seg = ''..'' then
        (case acc of
           [] \<Rightarrow> normalize_segments allowAbove (if allowAbove then [''..''] else []) segs
         | a # acc' \<Rightarrow>
             if a = ''..'' then normalize_segments allowAbove (''..'' # acc) segs
             else normalize_segments allowAbove acc' segs)
      else normalize_segments allowAbove (seg # acc) segs)"

fun join_slash :: "string list \<Rightarrow> string" where
  "join_slash [] = []"
| "join_slash [seg] = seg"
| "join_slash (seg # segs) = seg @ ''/'' @ join_slash segs"

definition path_normalize :: "string \<Rightarrow> string" where
  "path_normalize p =
     (if p = [] then ''.''
      else
        (let isAbsolute = (hd p = CHR ''/'');
             trailingSeparator = (last p = CHR ''/'');
             body = join_slash (normalize_segments (\<not> isAbsolute) [] (split_slash p))
         in if body = [] then (if isAbsolute then ''/'' else if trailingSeparator then ''./'' else ''.'')
            else (if isAbsolute then ''/'' else []) @ body @ (if trailingSeparator then ''/'' else [])))"

text \<open>\<^verbatim>\<open>path.join(a, b)\<close>: the non-empty arguments joined by a slash, normalised.\<close>

definition path_join :: "string \<Rightarrow> string \<Rightarrow> string" where
  "path_join a b =
     (if a = [] \<and> b = [] then ''.''
      else if a = [] then path_normalize b
      else if b = [] then path_normalize a
      else path_normalize (a @ ''/'' @ b))"

text \<open>\<^verbatim>\<open>path.basename(p)\<close>: the last segment, trailing slashes ignored.\<close>

definition path_basename :: "string \<Rightarrow> string" where
  "path_basename p = last_segment (rev (dropWhile (\<lambda>c. c = CHR ''/'') (rev p)))"

text \<open>A name that is one path segment and not a dot segment.\<close>

definition plain_name :: "string \<Rightarrow> bool" where
  "plain_name name =
     (name \<noteq> [] \<and> CHR ''/'' \<notin> set name \<and> name \<noteq> ''.'' \<and> name \<noteq> ''..'')"

section \<open>Responses and the response listener\<close>

text \<open>A network response as the code reads it: \<^verbatim>\<open>resp.url()\<close>, \<^verbatim>\<open>resp.headers()\<close>
  and the outcome of \<^verbatim>\<open>await resp.body()\<close>.\<close>

record response =
  resp_url :: string
  resp_headers :: "string \<rightharpoonup> string"
  resp_body :: "js_error + string"

text \<open>
  \<^verbatim>\<open>headers['content-disposition'] || headers['Content-Disposition'] || ''\<close>, line 248.
  Line 114 is the same expression without the last operand; it is used for its
  truthiness only, and \<^verbatim>\<open>undefined\<close> and the empty string are both falsy.
\<close>

definition header_disposition :: "(string \<rightharpoonup> string) \<Rightarrow> string" where
  "header_disposition h =
     (case h ''content-disposition'' of
        Some v \<Rightarrow> if v \<noteq> [] then v else (case h ''Content-Disposition'' of Some w \<Rightarrow> w | None \<Rightarrow> [])
      | None \<Rightarrow> (case h ''Content-Disposition'' of Some w \<Rightarrow> w | None \<Rightarrow> []))"

text \<open>\<^verbatim>\<open>/\.(ppt|pptx|zip|rar|7z|pdf)(\?.*)?$/i.test(url)\<close>, line 116: somewhere a dot, one
  of the extensions, and then either the end or a question mark and no line terminator
  up to the end.\<close>

definition file_extensions :: "string list" where
  "file_extensions = [''ppt'', ''pptx'', ''zip'', ''rar'', ''7z'', ''pdf'']"

definition line_terminator_free :: "string \<Rightarrow> bool" where
  "line_terminator_free q =
     (CHR 0x0A \<notin> set q \<and> CHR 0x0D \<notin> set q \<and>
      \<not> js_includes q [CHR 0xE2, CHR 0x80, CHR 0xA8] \<and>
      \<not> js_includes q [CHR 0xE2, CHR 0x80, CHR 0xA9])"

definition extension_tail :: "string \<Rightarrow> bool" where
  "extension_tail t =
     (case t of [] \<Rightarrow> True | c # q \<Rightarrow> c = CHR ''?'' \<and> line_terminator_free q)"

definition extension_at :: "string \<Rightarrow> bool" where
  "extension_at s =
     (case s of
        [] \<Rightarrow> False
      | c # r \<Rightarrow>
          c = CHR ''.'' \<and>
          list_ex (\<lambda>e. case strip_prefix_ci e r of Some t \<Rightarrow> extension_tail t | None \<Rightarrow> False)
            file_extensions)"

fun url_file_like :: "string \<Rightarrow> bool" where
  "url_file_like [] = False"
| "url_file_like (c # cs) = (extension_at (c # cs) \<or> url_file_like cs)"

text \<open>The predicate given to \<^verbatim>\<open>page.waitForResponse\<close>, lines 110 to 119.\<close>

definition is_file_response :: "response \<Rightarrow> bool" where
  "is_file_response resp =
     (let disp = header_disposition (resp_headers resp)
      in (disp \<noteq> [] \<and> test_attachment disp) \<or> url_file_like (resp_url resp))"

section \<open>Deriving the file name of a response\<close>

definition generic_name :: string where
  "generic_name = ''aippt-download''"

text \<open>Lines 247 to 257: the value of \<^verbatim>\<open>filename\<close> when line 258 is reached, or the
  error thrown before.\<close>

definition response_filename :: "response \<Rightarrow> js_error + string" where
  "response_filename resp =
     (let disp = header_disposition (resp_headers resp) in
      case disp_exec disp of
        Some v \<Rightarrow> decodeURIComponent (trim v)
      | None \<Rightarrow>
          (let last = last_segment (url_pathname (resp_url resp))
           in Inr (if last \<noteq> [] then last else generic_name)))"

section \<open>Effects, outcomes and the browser engine as the code sees it\<close>

text \<open>
  The downloader is a sequence of calls into Playwright and Node. Each call whose
  order, argument or absence matters leaves an \<open>effect\<close> in a trace, in program order; an awaited call either
  yields a value or rejects, so a computation is a trace and an outcome. What the
  engine and the page answer is not the code's to decide: it is read from a \<open>world\<close>,
  a record of those answers, over which the theorems quantify.
\<close>

datatype selector =
    TrackWithLabel     \<comment> \<open>\<^verbatim>\<open>button[data-track-event="dl_template_down_id"]:has-text(label)\<close>\<close>
  | Track              \<comment> \<open>\<^verbatim>\<open>button[data-track-event="dl_template_down_id"]\<close>\<close>
  | ButtonWithLabel    \<comment> \<open>\<^verbatim>\<open>button:has-text(label)\<close>\<close>
  | AnchorWithLabel    \<comment> \<open>\<^verbatim>\<open>a:has-text(label)\<close>\<close>
  | ClassGradient      \<comment> \<open>\<^verbatim>\<open>button.bg-gradient-primary-lr\<close>\<close>
  | ClassMl3           \<comment> \<open>\<^verbatim>\<open>button.ml-3\<close>\<close>

datatype effect =
    MkdTemp                        \<comment> \<open>\<^verbatim>\<open>fs.mkdtempSync\<close>, line 46\<close>
  | Launch bool nat                \<comment> \<open>\<^verbatim>\<open>chromium.launch({headless, slowMo, ...})\<close>\<close>
  | CloseBrowser                   \<comment> \<open>\<^verbatim>\<open>browser.close()\<close>: no line of the file calls it\<close>
  | NewContext "string option"     \<comment> \<open>\<^verbatim>\<open>browser.newContext\<close> with its \<^verbatim>\<open>storageState\<close>\<close>
  | NewPage
  | Goto string
  | ClickLogin
  | ClickSwitchPwd
  | FillAccount string
  | FillPassword string
  | ClickSubmitSpan
  | ClickSubmit
  | SaveStorageState string
  | Click selector                 \<comment> \<open>\<^verbatim>\<open>loc.click({timeout})\<close>\<close>
  | ForceClick selector            \<comment> \<open>\<^verbatim>\<open>loc.click({timeout, force: true})\<close>\<close>
  | EvaluateClick selector         \<comment> \<open>\<^verbatim>\<open>el.click()\<close> inside \<^verbatim>\<open>page.evaluate\<close>\<close>
  | PopupClick
  | SaveAs string
  | WriteFile string
  | RemoveDir string               \<comment> \<open>\<^verbatim>\<open>fs.rmSync(dir, {recursive, force})\<close>\<close>
  | CloseContext

text \<open>The effects by the phase they belong to: setting the request up (up to the page
  being open), and working on the page (the \<^verbatim>\<open>try\<close> block).\<close>

fun setup_effect :: "effect \<Rightarrow> bool" where
  "setup_effect MkdTemp = True"
| "setup_effect (Launch headless slowMo) = True"
| "setup_effect (NewContext storageState) = True"
| "setup_effect NewPage = True"
| "setup_effect _ = False"

fun page_effect :: "effect \<Rightarrow> bool" where
  "page_effect MkdTemp = False"
| "page_effect (Launch headless slowMo) = False"
| "page_effect CloseBrowser = False"
| "page_effect (NewContext storageState) = False"
| "page_effect NewPage = False"
| "page_effect (RemoveDir dir) = False"
| "page_effect CloseContext = False"
| "page_effect _ = True"

type_synonym 'a act = "effect list \<times> (js_error + 'a)"

definition ret :: "'a \<Rightarrow> 'a act" where
  "ret x = ([], Inr x)"

definition throw :: "js_error \<Rightarrow> 'a act" where
  "throw e = ([], Inl e)"

text \<open>\<open>call_unit ef r\<close>: an awaited call that yields no value, with the error it
  rejects with, if any.\<close>

definition call_unit :: "effect \<Rightarrow> js_error option \<Rightarrow> unit act" where
  "call_unit ef r = ([ef], case r of None \<Rightarrow> Inr () | Some e \<Rightarrow> Inl e)"

definition and_then :: "'a act \<Rightarrow> ('a \<Rightarrow> 'b act) \<Rightarrow> 'b act" where
  "and_then m f =
     (case m of
        (t, Inl e) \<Rightarrow> (t, Inl e)
      | (t, Inr x) \<Rightarrow> (case f x of (t', r) \<Rightarrow> (t @ t', r)))"

text \<open>\<^verbatim>\<open>m.catch(() => {})\<close> and \<^verbatim>\<open>try { m } catch (_) {}\<close>.\<close>

definition swallow :: "'a act \<Rightarrow> unit act" where
  "swallow m = (fst m, Inr ())"

text \<open>\<^verbatim>\<open>try { m } finally { fin }\<close> for a \<open>fin\<close> that cannot throw.\<close>

definition try_finally :: "'a act \<Rightarrow> unit act \<Rightarrow> 'a act" where
  "try_finally m fin = (fst m @ fst fin, snd m)"

text \<open>A download handle: \<^verbatim>\<open>suggestedFilename()\<close> and the outcome of \<^verbatim>\<open>saveAs\<close>.\<close>

record download =
  suggestedFilename :: string
  saveAs_result :: "js_error option"

text \<open>A popup page: the outcome of waiting for a download event in it (line 176), what
  \<^verbatim>\<open>popupDl.count()\<close> answers (line 180: the number of download controls the popup
  shows, or the error the query rejects with, as it does once the popup is closed; the
  call has no \<^verbatim>\<open>catch\<close>), and the outcome of the wait armed before clicking that
  control (lines 181 to 183; the click's own error is swallowed).\<close>

record popup =
  popup_download :: "download option"
  popup_control_count :: "js_error + nat"
  popup_click_download :: "download option"

text \<open>
  What one call of \<^verbatim>\<open>clickImmediateDownload\<close> meets: for each selector the number of
  matches and whether the plain and the forced click on its first match go through;
  for \<^verbatim>\<open>document.querySelector\<close> the text of the element found, if any; what the
  three listeners armed on lines 107 to 119 deliver within their 60 seconds: a
  download event, a new page of the context, the page's responses in order.
\<close>

record attempt =
  sel_count :: "selector \<Rightarrow> nat"
  click_ok :: "selector \<Rightarrow> bool"
  force_click_ok :: "selector \<Rightarrow> bool"
  query_text :: "selector \<Rightarrow> string option"
  download_event :: "download option"
  popup_event :: "popup option"
  page_responses :: "response list"

datatype snapshot_file =
    Missing      \<comment> \<open>\<^verbatim>\<open>fs.existsSync(stateFile)\<close> is false\<close>
  | Readable     \<comment> \<open>the file exists and holds a storage state\<close>
  | Corrupt      \<comment> \<open>the file exists and does not parse\<close>

text \<open>
  What one request meets, in the order the code asks: the three environment variables
  (\<^verbatim>\<open>AIPPT_USERNAME\<close>, \<^verbatim>\<open>AIPPT_PASSWORD\<close>, \<^verbatim>\<open>PLAYWRIGHT_HEADLESS\<close>); the outcome of
  \<^verbatim>\<open>fs.mkdtempSync\<close>; the snapshot file; the outcome of \<^verbatim>\<open>chromium.launch\<close>, should the
  call of line 50 (index 0) or the one of line 62 (index 1) come to launch; whether the
  browser is gone by the time of the retry; what the engine answers to the first and to
  the second \<^verbatim>\<open>newContext\<close>, to \<^verbatim>\<open>newPage\<close> and to \<^verbatim>\<open>goto\<close>; the counts of lines 90, 94,
  209 and 217 and the outcomes of the clicks and fills of the login form and of saving
  the storage state; the page as each round of the download loop finds it; the outcome
  of \<^verbatim>\<open>fs.writeFileSync\<close> by path; the outcome of \<^verbatim>\<open>context.close()\<close>.
\<close>

record world =
  env_username :: "string option"
  env_password :: "string option"
  env_headless :: "string option"
  mkdtemp_result :: "js_error + string"
  state_file :: snapshot_file
  launch_result :: "nat \<Rightarrow> js_error + nat"
  crash_before_retry :: bool
  context_result :: "nat \<Rightarrow> js_error option"
  page_result :: "js_error option"
  goto_result :: "js_error option"
  login_button_count :: nat
  login_fallback_count :: nat
  click_login_result :: "js_error option"
  switch_pwd_count :: nat
  click_switch_result :: "js_error option"
  fill_account_result :: "js_error option"
  fill_password_result :: "js_error option"
  submit_span_count :: nat
  click_submit_span_result :: "js_error option"
  click_submit_result :: "js_error option"
  save_state_result :: "js_error option"
  attempts :: "nat \<Rightarrow> attempt"
  write_file_result :: "string \<Rightarrow> js_error option"
  close_context_result :: "js_error option"

record options =
  opt_headless :: "bool option"
  opt_slowMo :: "nat option"

section \<open>The Download Trigger Engine: \<^verbatim>\<open>clickImmediateDownload\<close>\<close>

datatype signal =
    NativeDownload download
  | PopupNavigatedDownload download
  | NetworkResponse response

definition download_label :: string where
  "download_label =
     [CHR 0xE7, CHR 0xAB, CHR 0x8B, CHR 0xE5, CHR 0x8D, CHR 0xB3,
      CHR 0xE4, CHR 0xB8, CHR 0x8B, CHR 0xE8, CHR 0xBD, CHR 0xBD]"

text \<open>The message of line 167, in UTF-8.\<close>

definition trigger_not_found :: string where
  "trigger_not_found =
     [CHR 0xE6, CHR 0x9C, CHR 0xAA, CHR 0xE6, CHR 0x89, CHR 0xBE, CHR 0xE5, CHR 0x88, CHR 0xB0,
      CHR 0xE2, CHR 0x80, CHR 0x9C] @ download_label @
     [CHR 0xE2, CHR 0x80, CHR 0x9D, CHR 0xE6, CHR 0x8C, CHR 0x89, CHR 0xE9, CHR 0x92, CHR 0xAE]"

text \<open>The message of line 236.\<close>

definition download_not_started :: string where
  "download_not_started =
     [CHR 0xE4, CHR 0xB8, CHR 0x8B, CHR 0xE8, CHR 0xBD, CHR 0xBD, CHR 0xE6, CHR 0x9C, CHR 0xAA,
      CHR 0xE5, CHR 0xBC, CHR 0x80, CHR 0xE5, CHR 0xA7, CHR 0x8B]"

definition candidates :: "selector list" where
  "candidates =
     [TrackWithLabel, Track, ButtonWithLabel, AnchorWithLabel, ClassGradient, ClassMl3]"

text \<open>
  The loop of lines 123 to 146, the value being \<^verbatim>\<open>clicked\<close>. A selector without a
  match is passed over; on the first match of one that has some, the plain click is
  tried, then the forced one, and the loop ends at the first that does not throw. The
  waits before the click are swallowed and the text read on line 129 decides nothing
  (the branch of line 130 is empty).
\<close>

fun try_candidates :: "attempt \<Rightarrow> selector list \<Rightarrow> effect list \<times> bool" where
  "try_candidates a [] = ([], False)"
| "try_candidates a (sel # sels) =
     (if sel_count a sel > 0 then
        (if click_ok a sel then ([Click sel], True)
         else if force_click_ok a sel then ([Click sel, ForceClick sel], True)
         else (case try_candidates a sels of (t, r) \<Rightarrow> (Click sel # ForceClick sel # t, r)))
      else try_candidates a sels)"

text \<open>The selector has a match, and the plain or the forced click on it goes through.\<close>

definition click_succeeds :: "attempt \<Rightarrow> selector \<Rightarrow> bool" where
  "click_succeeds a sel = (sel_count a sel > 0 \<and> (click_ok a sel \<or> force_click_ok a sel))"

text \<open>The function given to \<^verbatim>\<open>page.evaluate\<close>, lines 149 to 165.\<close>

definition last_resort_selectors :: "selector list" where
  "last_resort_selectors = [Track, ClassGradient, ClassMl3]"

fun query_and_click :: "attempt \<Rightarrow> selector list \<Rightarrow> effect list \<times> bool" where
  "query_and_click a [] = ([], False)"
| "query_and_click a (sel # sels) =
     (case query_text a sel of
        Some txt \<Rightarrow>
          if js_includes txt download_label then ([EvaluateClick sel], True)
          else query_and_click a sels
      | None \<Rightarrow> query_and_click a sels)"

text \<open>Lines 120 to 167.\<close>

definition search_and_click :: "attempt \<Rightarrow> unit act" where
  "search_and_click a =
     (case try_candidates a candidates of
        (t, True) \<Rightarrow> (t, Inr ())
      | (t, False) \<Rightarrow>
          (case query_and_click a last_resort_selectors of
             (t', True) \<Rightarrow> (t @ t', Inr ())
           | (t', False) \<Rightarrow> (t @ t', Inl (Error trigger_not_found))))"

text \<open>\<^verbatim>\<open>responseListener\<close>: the first response the predicate accepts, \<^verbatim>\<open>null\<close> when
  the 60 seconds pass without one.\<close>

definition responseListener :: "attempt \<Rightarrow> response option" where
  "responseListener a = find is_file_response (page_responses a)"

text \<open>Lines 170 to 190. The wait of line 169 is on the main page, which lives as long as
  the request; a popup is the site's to close. The waits on the popup of lines 175 and
  176 and the click of line 182 are caught; the query of line 180 is not, so its
  rejection is that of the whole call, whatever the response listener holds.\<close>

definition await_signal :: "attempt \<Rightarrow> signal option act" where
  "await_signal a =
     (case download_event a of
        Some d \<Rightarrow> ([], Inr (Some (NativeDownload d)))
      | None \<Rightarrow>
          (case popup_event a of
             None \<Rightarrow> ([], Inr (map_option NetworkResponse (responseListener a)))
           | Some p \<Rightarrow>
               (case popup_download p of
                  Some d \<Rightarrow> ([], Inr (Some (PopupNavigatedDownload d)))
                | None \<Rightarrow>
                    (case popup_control_count p of
                       Inl e \<Rightarrow> ([], Inl e)
                     | Inr n \<Rightarrow>
                         if n > 0 then
                           (case popup_click_download p of
                              Some d \<Rightarrow> ([PopupClick], Inr (Some (PopupNavigatedDownload d)))
                            | None \<Rightarrow>
                                ([PopupClick],
                                 Inr (map_option NetworkResponse (responseListener a))))
                         else ([], Inr (map_option NetworkResponse (responseListener a)))))))"

definition clickImmediateDownload :: "attempt \<Rightarrow> signal option act" where
  "clickImmediateDownload a = and_then (search_and_click a) (\<lambda>_. await_signal a)"

text \<open>
  The loops of lines 198 to 203 and 227 to 232:
  \<^verbatim>\<open>for (let i = 0; i < 3 && !download; i++)\<close>, each round being
  \<^verbatim>\<open>clickImmediateDownload().catch(() => null)\<close>. \<open>download_loop att i k\<close> runs the
  rounds \<open>i, ..., i + k - 1\<close>.
\<close>

fun download_loop :: "(nat \<Rightarrow> attempt) \<Rightarrow> nat \<Rightarrow> nat \<Rightarrow> effect list \<times> signal option" where
  "download_loop att i 0 = ([], None)"
| "download_loop att i (Suc k) =
     (case clickImmediateDownload (att i) of
        (t, Inr (Some d)) \<Rightarrow> (t, Some d)
      | (t, _) \<Rightarrow> (case download_loop att (Suc i) k of (t', r) \<Rightarrow> (t @ t', r)))"

section \<open>The Artifact Materializer\<close>

text \<open>The object returned on lines 243 and 261; \<open>cleanup_dir\<close> is the directory its
  \<^verbatim>\<open>cleanup\<close> closure removes.\<close>

record artifact =
  filePath :: string
  filename :: string
  cleanup_dir :: string

definition make_artifact :: "string \<Rightarrow> string \<Rightarrow> artifact" where
  "make_artifact tmpDir path =
     \<lparr>filePath = path, filename = path_basename path, cleanup_dir = tmpDir\<rparr>"

text \<open>Lines 239 to 244.\<close>

definition materialize_download :: "string \<Rightarrow> download \<Rightarrow> artifact act" where
  "materialize_download tmpDir d =
     (let suggested = suggestedFilename d;
          path = path_join tmpDir (if suggested \<noteq> [] then suggested else generic_name)
      in and_then (call_unit (SaveAs path) (saveAs_result d)) (\<lambda>_. ret (make_artifact tmpDir path)))"

text \<open>Lines 246 to 261.\<close>

definition materialize_response :: "world \<Rightarrow> string \<Rightarrow> response \<Rightarrow> artifact act" where
  "materialize_response w tmpDir resp =
     (case response_filename resp of
        Inl e \<Rightarrow> throw e
      | Inr name \<Rightarrow>
          (case resp_body resp of
             Inl e \<Rightarrow> throw e
           | Inr buf \<Rightarrow>
               (let path = path_join tmpDir name
                in and_then (call_unit (WriteFile path) (write_file_result w path))
                     (\<lambda>_. ret (make_artifact tmpDir path)))))"

text \<open>Line 239 tells the two apart by \<^verbatim>\<open>typeof download.suggestedFilename\<close>.\<close>

fun materialize :: "world \<Rightarrow> string \<Rightarrow> signal \<Rightarrow> artifact act" where
  "materialize w tmpDir (NativeDownload d) = materialize_download tmpDir d"
| "materialize w tmpDir (PopupNavigatedDownload d) = materialize_download tmpDir d"
| "materialize w tmpDir (NetworkResponse resp) = materialize_response w tmpDir resp"

section \<open>The Browser Session Manager: \<^verbatim>\<open>getSharedBrowser\<close>\<close>

text \<open>
  The module's two variables are \<^verbatim>\<open>sharedBrowser\<close> and \<^verbatim>\<open>launchingBrowser\<close>. Browsers
  are numbered; \<open>connected\<close> is what \<^verbatim>\<open>isConnected()\<close> answers.

  First the function as one request running alone meets it: no launch is in flight
  when it is called (\<^verbatim>\<open>launchingBrowser\<close> is \<^verbatim>\<open>null\<close> on entry and again on exit), and
  the outcome of \<^verbatim>\<open>chromium.launch\<close> is given.
\<close>

record manager =
  sharedBrowser :: "nat option"
  connected :: "nat \<Rightarrow> bool"

definition launch_browser :: "manager \<Rightarrow> js_error + nat \<Rightarrow> bool \<Rightarrow> nat \<Rightarrow> manager \<times> nat act" where
  "launch_browser m launch headless slowMo =
     (case launch of
        Inr b \<Rightarrow>
          (m\<lparr>sharedBrowser := Some b, connected := (connected m)(b := True)\<rparr>,
           ([Launch headless slowMo], Inr b))
      | Inl e \<Rightarrow> (m, ([Launch headless slowMo], Inl e)))"

definition getSharedBrowser :: "manager \<Rightarrow> js_error + nat \<Rightarrow> bool \<Rightarrow> nat \<Rightarrow> manager \<times> nat act" where
  "getSharedBrowser m launch headless slowMo =
     (case sharedBrowser m of
        Some b \<Rightarrow> if connected m b then (m, ret b) else launch_browser m launch headless slowMo
      | None \<Rightarrow> launch_browser m launch headless slowMo)"

text \<open>The handler of line 29, run when browser \<open>b\<close> disconnects.\<close>

definition on_disconnected :: "nat \<Rightarrow> manager \<Rightarrow> manager" where
  "on_disconnected b m = m\<lparr>sharedBrowser := None, connected := (connected m)(b := False)\<rparr>"


subsection \<open>Concurrent callers\<close>

text \<open>
  JavaScript runs one caller at a time and switches only at an \<^verbatim>\<open>await\<close>, so the
  function is three atomic blocks: from entry to the first \<^verbatim>\<open>await\<close> (line 12 or line
  33), from line 12 to line 33, and from line 33 to the return. A caller is at one of
  these points; \<open>promises\<close> lists every call of \<^verbatim>\<open>chromium.launch\<close> made so far, in
  order, with the state of the promise built on lines 15 to 32 (the browser of launch
  \<open>p\<close> is numbered \<open>p\<close>). The \<^verbatim>\<open>then\<close> and \<^verbatim>\<open>catch\<close> callbacks of lines 25 to 32 run
  when the launch settles, before any awaiting caller resumes.
\<close>

datatype promise = Pending | Fulfilled nat | Rejected js_error

datatype caller =
    Start                 \<comment> \<open>not yet entered\<close>
  | AwaitInflight nat     \<comment> \<open>suspended on line 12, on that promise\<close>
  | AwaitOwn nat          \<comment> \<open>suspended on line 33, on the promise it created\<close>
  | Returned nat
  | Thrown js_error

record pool = manager +
  launchingBrowser :: "nat option"
  promises :: "promise list"
  callers :: "caller list"

datatype event =
    Run nat                     \<comment> \<open>caller \<open>i\<close> runs its next block, if it can\<close>
  | LaunchOk nat                \<comment> \<open>launch \<open>p\<close> succeeds\<close>
  | LaunchFails nat js_error    \<comment> \<open>launch \<open>p\<close> fails\<close>
  | Disconnect nat              \<comment> \<open>browser \<open>b\<close> disconnects\<close>

text \<open>Lines 15 to 33, up to the \<^verbatim>\<open>await\<close>.\<close>

definition start_launch :: "nat \<Rightarrow> pool \<Rightarrow> pool" where
  "start_launch i s =
     s\<lparr>launchingBrowser := Some (length (promises s)),
       promises := promises s @ [Pending],
       callers := (callers s)[i := AwaitOwn (length (promises s))]\<rparr>"

text \<open>Line 13 and what follows it.\<close>

definition after_inflight :: "nat \<Rightarrow> pool \<Rightarrow> pool" where
  "after_inflight i s =
     (case sharedBrowser s of
        Some b \<Rightarrow>
          if connected s b then s\<lparr>callers := (callers s)[i := Returned b]\<rparr> else start_launch i s
      | None \<Rightarrow> start_launch i s)"

definition settled :: "pool \<Rightarrow> nat \<Rightarrow> bool" where
  "settled s p = (p < length (promises s) \<and> promises s ! p \<noteq> Pending)"

definition run_caller :: "nat \<Rightarrow> pool \<Rightarrow> pool" where
  "run_caller i s =
     (if i \<ge> length (callers s) then s
      else
        (case callers s ! i of
           Start \<Rightarrow>
             (case sharedBrowser s of
                Some b \<Rightarrow>
                  if connected s b then s\<lparr>callers := (callers s)[i := Returned b]\<rparr>
                  else (case launchingBrowser s of
                          Some p \<Rightarrow> s\<lparr>callers := (callers s)[i := AwaitInflight p]\<rparr>
                        | None \<Rightarrow> start_launch i s)
              | None \<Rightarrow>
                  (case launchingBrowser s of
                     Some p \<Rightarrow> s\<lparr>callers := (callers s)[i := AwaitInflight p]\<rparr>
                   | None \<Rightarrow> start_launch i s))
         | AwaitInflight p \<Rightarrow> if settled s p then after_inflight i s else s
         | AwaitOwn p \<Rightarrow>
             (if p < length (promises s) then
                (case promises s ! p of
                   Pending \<Rightarrow> s
                 | Fulfilled b \<Rightarrow>
                     s\<lparr>sharedBrowser := Some b, callers := (callers s)[i := Returned b]\<rparr>
                 | Rejected e \<Rightarrow> s\<lparr>callers := (callers s)[i := Thrown e]\<rparr>)
              else s)
         | Returned b \<Rightarrow> s
         | Thrown e \<Rightarrow> s))"

definition pending :: "pool \<Rightarrow> nat \<Rightarrow> bool" where
  "pending s p = (p < length (promises s) \<and> promises s ! p = Pending)"

fun step :: "event \<Rightarrow> pool \<Rightarrow> pool" where
  "step (Run i) s = run_caller i s"
| "step (LaunchOk p) s =
     (if pending s p then
        s\<lparr>sharedBrowser := Some p, connected := (connected s)(p := True),
          launchingBrowser := None, promises := (promises s)[p := Fulfilled p]\<rparr>
      else s)"
| "step (LaunchFails p e) s =
     (if pending s p then
        s\<lparr>launchingBrowser := None, promises := (promises s)[p := Rejected e]\<rparr>
      else s)"
| "step (Disconnect b) s =
     (if connected s b then s\<lparr>sharedBrowser := None, connected := (connected s)(b := False)\<rparr>
      else s)"

fun run :: "event list \<Rightarrow> pool \<Rightarrow> pool" where
  "run [] s = s"
| "run (ev # evs) s = run evs (step ev s)"

text \<open>\<open>n\<close> calls made before any browser exists.\<close>

definition initial :: "nat \<Rightarrow> pool" where
  "initial n =
     \<lparr>sharedBrowser = None, connected = (\<lambda>_. False), launchingBrowser = None, promises = [],
      callers = replicate n Start\<rparr>"

text \<open>The number of browser processes launched so far.\<close>

definition launches :: "pool \<Rightarrow> nat" where
  "launches s = length (promises s)"

definition is_failure :: "event \<Rightarrow> bool" where
  "is_failure ev = (case ev of LaunchFails p e \<Rightarrow> True | Disconnect b \<Rightarrow> True | _ \<Rightarrow> False)"

text \<open>
  The states in which the launch is coalesced: no launch yet and nobody inside; or one
  launch in flight, marked as such, every caller either outside or suspended on it; or
  that one launch fulfilled, its browser shared and connected, every caller outside,
  suspended on it, or returned with its browser.
\<close>

definition on_first_launch :: "caller \<Rightarrow> bool" where
  "on_first_launch c = (c = Start \<or> c = AwaitInflight 0 \<or> c = AwaitOwn 0)"

definition coalesced :: "pool \<Rightarrow> bool" where
  "coalesced s =
     ((promises s = [] \<and> sharedBrowser s = None \<and> launchingBrowser s = None \<and>
       (\<forall>c\<in>set (callers s). c = Start)) \<or>
      (promises s = [Pending] \<and> sharedBrowser s = None \<and> launchingBrowser s = Some 0 \<and>
       (\<forall>c\<in>set (callers s). on_first_launch c)) \<or>
      (promises s = [Fulfilled 0] \<and> sharedBrowser s = Some 0 \<and> connected s 0 \<and>
       launchingBrowser s = None \<and>
       (\<forall>c\<in>set (callers s). on_first_launch c \<or> c = Returned 0)))"

section \<open>The orchestrator: \<^verbatim>\<open>downloadAipptTemplate\<close>\<close>

text \<open>An environment variable that is unset reads \<^verbatim>\<open>undefined\<close>; that and the empty
  string are the falsy values a variable can have.\<close>

definition truthy :: "string option \<Rightarrow> bool" where
  "truthy v = (case v of Some s \<Rightarrow> s \<noteq> [] | None \<Rightarrow> False)"

text \<open>Line 48: \<^verbatim>\<open>options.headless ?? (headlessEnv ? headlessEnv !== 'false' : true)\<close>.\<close>

definition headless_flag :: "world \<Rightarrow> options \<Rightarrow> bool" where
  "headless_flag w opts =
     (case opt_headless opts of
        Some h \<Rightarrow> h
      | None \<Rightarrow> (if truthy (env_headless w) then env_headless w \<noteq> Some ''false'' else True))"

definition slowMo_value :: "options \<Rightarrow> nat" where
  "slowMo_value opts = (case opt_slowMo opts of Some n \<Rightarrow> n | None \<Rightarrow> 0)"

text \<open>Line 54, relative to the working directory.\<close>

definition stateFile :: string where
  "stateFile = ''data/aippt_storage.json''"

text \<open>\<^verbatim>\<open>fs.existsSync(stateFile) ? stateFile : undefined\<close>, lines 59 and 63.\<close>

definition storage_argument :: "world \<Rightarrow> string option" where
  "storage_argument w = (if state_file w = Missing then None else Some stateFile)"

text \<open>
  \<^verbatim>\<open>browser.newContext({acceptDownloads: true, storageState})\<close>. Given a path,
  Playwright reads and parses the file before it creates the context and rejects when
  that fails; otherwise the outcome is the engine's.
\<close>

definition newContext :: "world \<Rightarrow> nat \<Rightarrow> unit act" where
  "newContext w k =
     (let arg = storage_argument w
      in call_unit (NewContext arg)
           (if arg \<noteq> None \<and> state_file w = Corrupt
            then Some (EngineError ''Error reading storage state'')
            else context_result w k))"

text \<open>Lines 57 to 66. Between the failed attempt and the retry the browser may have
  gone, in which case the handler of line 29 has run.\<close>

definition openContextWithRetry ::
  "world \<Rightarrow> manager \<Rightarrow> nat \<Rightarrow> bool \<Rightarrow> nat \<Rightarrow> manager \<times> unit act" where
  "openContextWithRetry w m browser headless slowMo =
     (case newContext w 0 of
        (t, Inr _) \<Rightarrow> (m, and_then (t, Inr ()) (\<lambda>_. call_unit NewPage (page_result w)))
      | (t, Inl _) \<Rightarrow>
          (let m' = (if crash_before_retry w then on_disconnected browser m else m) in
           case getSharedBrowser m' (launch_result w 1) headless slowMo of
             (m'', (t', Inl e)) \<Rightarrow> (m'', (t @ t', Inl e))
           | (m'', (t', Inr b)) \<Rightarrow>
               (m'', and_then (t @ t', Inr ())
                       (\<lambda>_. and_then (newContext w 1)
                               (\<lambda>_. call_unit NewPage (page_result w))))))"

text \<open>Lines 89 to 94.\<close>

definition login_required :: "world \<Rightarrow> bool" where
  "login_required w =
     (if login_button_count w = 0 then login_fallback_count w > 0
      else login_button_count w > 0)"

text \<open>Lines 207 to 225: the login form, up to saving the storage state. The two
  \<^verbatim>\<open>count()\<close> queries answer as long as the page lives, which is taken for granted.\<close>

definition authenticate :: "world \<Rightarrow> string \<Rightarrow> string \<Rightarrow> unit act" where
  "authenticate w username password =
     and_then (swallow (call_unit ClickLogin (click_login_result w))) (\<lambda>_.
     and_then (if switch_pwd_count w > 0
               then swallow (call_unit ClickSwitchPwd (click_switch_result w))
               else ret ()) (\<lambda>_.
     and_then (call_unit (FillAccount username) (fill_account_result w)) (\<lambda>_.
     and_then (call_unit (FillPassword password) (fill_password_result w)) (\<lambda>_.
     and_then (if submit_span_count w > 0
               then swallow (call_unit ClickSubmitSpan (click_submit_span_result w))
               else swallow (call_unit ClickSubmit (click_submit_result w))) (\<lambda>_.
     swallow (call_unit (SaveStorageState stateFile) (save_state_result w)))))))"

text \<open>The \<^verbatim>\<open>try\<close> block, lines 69 to 261. Both branches of line 194 run the same
  loop; the waits are swallowed or cannot fail while the page lives.\<close>

definition request_body :: "world \<Rightarrow> string \<Rightarrow> string \<Rightarrow> string \<Rightarrow> string \<Rightarrow> artifact act" where
  "request_body w tmpDir templateUrl username password =
     and_then (call_unit (Goto templateUrl) (goto_result w)) (\<lambda>_.
     and_then (if login_required w then authenticate w username password else ret ()) (\<lambda>_.
       case download_loop (attempts w) 0 3 of
         (t, None) \<Rightarrow> (t, Inl (Error download_not_started))
       | (t, Some d) \<Rightarrow> (case materialize w tmpDir d of (t', r) \<Rightarrow> (t @ t', r))))"

text \<open>The \<^verbatim>\<open>finally\<close> block, line 263.\<close>

definition close_context :: "world \<Rightarrow> unit act" where
  "close_context w = swallow (call_unit CloseContext (close_context_result w))"

text \<open>Lines 46 to 266, once the checks of lines 38 to 45 have passed.\<close>

definition acquire ::
  "world \<Rightarrow> manager \<Rightarrow> string \<Rightarrow> options \<Rightarrow> string \<Rightarrow> string \<Rightarrow> manager \<times> artifact act" where
  "acquire w m templateUrl opts username password =
     (case mkdtemp_result w of
        Inl e \<Rightarrow> (m, ([MkdTemp], Inl e))
      | Inr tmpDir \<Rightarrow>
          (let headless = headless_flag w opts; slowMo = slowMo_value opts in
           case getSharedBrowser m (launch_result w 0) headless slowMo of
             (m1, (t1, Inl e)) \<Rightarrow> (m1, (MkdTemp # t1, Inl e))
           | (m1, (t1, Inr browser)) \<Rightarrow>
               (case openContextWithRetry w m1 browser headless slowMo of
                  (m2, (t2, Inl e)) \<Rightarrow> (m2, (MkdTemp # t1 @ t2, Inl e))
                | (m2, (t2, Inr _)) \<Rightarrow>
                    (m2, and_then (MkdTemp # t1 @ t2, Inr ())
                           (\<lambda>_. try_finally
                                   (request_body w tmpDir templateUrl username password)
                                   (close_context w))))))"

definition downloadAipptTemplate ::
  "world \<Rightarrow> manager \<Rightarrow> string \<Rightarrow> options \<Rightarrow> manager \<times> artifact act" where
  "downloadAipptTemplate w m templateUrl opts =
     (if \<not> url_ok templateUrl then (m, throw (Error ''Invalid template URL''))
      else
        (case (env_username w, env_password w) of
           (Some username, Some password) \<Rightarrow>
             if username = [] \<or> password = []
             then (m, throw (Error ''Missing AIPPT_USERNAME/AIPPT_PASSWORD''))
             else acquire w m templateUrl opts username password
         | _ \<Rightarrow> (m, throw (Error ''Missing AIPPT_USERNAME/AIPPT_PASSWORD''))))"

text \<open>The trace and the outcome of a request.\<close>

definition trace_of :: "manager \<times> 'a act \<Rightarrow> effect list" where
  "trace_of r = fst (snd r)"

definition outcome_of :: "manager \<times> 'a act \<Rightarrow> js_error + 'a" where
  "outcome_of r = snd (snd r)"

text \<open>What holds of the effects that precede the \<^verbatim>\<open>try\<close> block: they set the request
  up, every launch carries the flags computed on lines 48 and 49, every context is asked
  for with the argument of lines 59 and 63, and a page is asked for only after a context
  was made, which a snapshot that does not parse rules out.\<close>

definition setup_shape :: "world \<Rightarrow> options \<Rightarrow> effect list \<Rightarrow> bool" where
  "setup_shape w opts pre =
     (list_all setup_effect pre \<and>
      (\<forall>h s. Launch h s \<in> set pre \<longrightarrow> h = headless_flag w opts \<and> s = slowMo_value opts) \<and>
      (\<forall>arg. NewContext arg \<in> set pre \<longrightarrow> arg = storage_argument w) \<and>
      (NewPage \<in> set pre \<longrightarrow> state_file w \<noteq> Corrupt))"

section \<open>The release action\<close>

text \<open>
  \<^verbatim>\<open>cleanup: () => fs.rmSync(tmpDir, {recursive: true, force: true})\<close>, lines 243 and
  261. The file system is the set of paths that exist and the set of those the
  operating system refuses to remove (permissions, a busy file). With \<^verbatim>\<open>force\<close>,
  \<^verbatim>\<open>rmSync\<close> ignores a path that does not exist, and only that; any other failure is
  thrown, and the closure has no handler.
\<close>

record filesystem =
  existing :: "string set"
  refused :: "string set"

definition rmSync_recursive_force :: "filesystem \<Rightarrow> string \<Rightarrow> filesystem \<times> unit act" where
  "rmSync_recursive_force fs dir =
     (if dir \<notin> existing fs then (fs, ([RemoveDir dir], Inr ()))
      else if dir \<in> refused fs then (fs, ([RemoveDir dir], Inl (EngineError ''EACCES'')))
      else (fs\<lparr>existing := existing fs - {dir}\<rparr>, ([RemoveDir dir], Inr ())))"

definition cleanup :: "artifact \<Rightarrow> filesystem \<Rightarrow> filesystem \<times> unit act" where
  "cleanup a fs = rmSync_recursive_force fs (cleanup_dir a)"

section \<open>Fixtures\<close>

text \<open>Concrete pages and worlds at which the theorems below are instantiated.\<close>

definition quote :: string where
  "quote = [CHR 0x22]"

text \<open>A response with \<^verbatim>\<open>content-disposition: attachment; filename="x.pptx"\<close>.\<close>

definition response_x :: response where
  "response_x =
     \<lparr>resp_url = ''https://www.aippt.cn/api/template/download?id=42'',
      resp_headers = [''content-disposition'' \<mapsto> ''attachment; filename='' @ quote @ ''x.pptx'' @ quote],
      resp_body = Inr ''PK''\<rparr>"

text \<open>A response whose header carries both forms, the plain one first:
  \<^verbatim>\<open>attachment; filename="a.pptx"; filename*=UTF-8''b.pptx\<close>.\<close>

definition response_both :: response where
  "response_both =
     \<lparr>resp_url = ''https://www.aippt.cn/api/template/download?id=42'',
      resp_headers =
        [''content-disposition'' \<mapsto>
           ''attachment; filename='' @ quote @ ''a.pptx'' @ quote @ ''; '' @ filename_star @ ''b.pptx''],
      resp_body = Inr ''PK''\<rparr>"

text \<open>Responses without a disposition header.\<close>

definition response_at :: "string \<Rightarrow> response" where
  "response_at u = \<lparr>resp_url = u, resp_headers = Map.empty, resp_body = Inr ''PK''\<rparr>"

text \<open>A page on which nothing matches and nothing happens.\<close>

definition blank_page :: attempt where
  "blank_page =
     \<lparr>sel_count = (\<lambda>_. 0), click_ok = (\<lambda>_. False), force_click_ok = (\<lambda>_. False),
      query_text = (\<lambda>_. None), download_event = None, popup_event = None,
      page_responses = []\<rparr>"

text \<open>A page on which only the third selector matches, \<^verbatim>\<open>button:has-text(label)\<close>; the
  button can be clicked.\<close>

definition third_only :: attempt where
  "third_only =
     blank_page\<lparr>sel_count := (\<lambda>sel. if sel = ButtonWithLabel then 1 else 0),
       click_ok := (\<lambda>sel. sel = ButtonWithLabel)\<rparr>"

text \<open>The same page with a button that cannot be clicked, whichever way.\<close>

definition third_only_stuck :: attempt where
  "third_only_stuck = blank_page\<lparr>sel_count := (\<lambda>sel. if sel = ButtonWithLabel then 1 else 0)\<rparr>"

text \<open>A popup in which no download starts and no download control shows.\<close>

definition idle_popup :: popup where
  "idle_popup =
     \<lparr>popup_download = None, popup_control_count = Inr 0, popup_click_download = None\<rparr>"

text \<open>A download handle, and the pages on which it arrives: as the native event, as
  the download of the popup, after the click on the popup's control.\<close>

definition download_y :: download where
  "download_y = \<lparr>suggestedFilename = ''y.pptx'', saveAs_result = None\<rparr>"

definition native_page :: attempt where
  "native_page = third_only\<lparr>download_event := Some download_y\<rparr>"

definition popup_page :: attempt where
  "popup_page = third_only\<lparr>popup_event := Some (idle_popup\<lparr>popup_download := Some download_y\<rparr>)\<rparr>"

definition popup_control_page :: attempt where
  "popup_control_page =
     third_only\<lparr>popup_event :=
       Some (idle_popup\<lparr>popup_control_count := Inr 1,
               popup_click_download := Some download_y\<rparr>)\<rparr>"

text \<open>A popup in which nothing downloads, and \<open>response_x\<close> on the page.\<close>

definition idle_popup_page :: attempt where
  "idle_popup_page = third_only\<lparr>popup_event := Some idle_popup, page_responses := [response_x]\<rparr>"

text \<open>The same with a popup that is closed by the time line 180 queries it.\<close>

definition target_closed :: js_error where
  "target_closed = EngineError ''Target page, context or browser has been closed''"

definition closed_popup_page :: attempt where
  "closed_popup_page =
     third_only\<lparr>popup_event := Some (idle_popup\<lparr>popup_control_count := Inl target_closed\<rparr>),
       page_responses := [response_x]\<rparr>"

text \<open>A page on which no locator matches and \<^verbatim>\<open>document.querySelector\<close> finds the
  tracked button, labelled.\<close>

definition query_only :: attempt where
  "query_only = blank_page\<lparr>query_text := (\<lambda>sel. if sel = Track then Some download_label else None)\<rparr>"

text \<open>A run in which every call succeeds, no login is asked for, and the click is
  answered by \<open>response_x\<close> alone.\<close>

definition plain_world :: world where
  "plain_world =
     \<lparr>env_username = Some ''user'', env_password = Some ''secret'', env_headless = None,
      mkdtemp_result = Inr ''/tmp/aippt-AbC123'', state_file = Missing,
      launch_result = (\<lambda>k. Inr k), crash_before_retry = False,
      context_result = (\<lambda>_. None), page_result = None, goto_result = None,
      login_button_count = 0, login_fallback_count = 0, click_login_result = None,
      switch_pwd_count = 0, click_switch_result = None,
      fill_account_result = None, fill_password_result = None,
      submit_span_count = 0, click_submit_span_result = None, click_submit_result = None,
      save_state_result = None,
      attempts = (\<lambda>_. third_only\<lparr>page_responses := [response_x]\<rparr>),
      write_file_result = (\<lambda>_. None), close_context_result = None\<rparr>"

text \<open>The run in which the page asks for a login, shows no labelled submit button, and
  the click on the plain submit button times out.\<close>

definition login_world :: world where
  "login_world =
     plain_world\<lparr>login_button_count := 1,
       click_submit_result := Some (EngineError ''Timeout 10000ms exceeded'')\<rparr>"

text \<open>A file system holding the temporary directory of \<open>plain_world\<close>, and the same
  with the removal of that directory refused.\<close>

definition disk :: filesystem where
  "disk = \<lparr>existing = {''/tmp/aippt-AbC123''}, refused = {}\<rparr>"

definition locked_disk :: filesystem where
  "locked_disk = \<lparr>existing = {''/tmp/aippt-AbC123''}, refused = {''/tmp/aippt-AbC123''}\<rparr>"

definition artifact_x :: artifact where
  "artifact_x =
     \<lparr>filePath = ''/tmp/aippt-AbC123/x.pptx'', filename = ''x.pptx'',
      cleanup_dir = ''/tmp/aippt-AbC123''\<rparr>"

definition empty_disk :: filesystem where
  "empty_disk = \<lparr>existing = {}, refused = {}\<rparr>"

definition spawn_failed :: js_error where
  "spawn_failed = EngineError ''spawn failed''"

definition no_browser :: manager where
  "no_browser = \<lparr>sharedBrowser = None, connected = (\<lambda>_. False)\<rparr>"

definition no_options :: options where
  "no_options = \<lparr>opt_headless = None, opt_slowMo = None\<rparr>"

definition template_url :: string where
  "template_url = ''https://www.aippt.cn/template/ppt/detail/42.html''"




section \<open>Configuration is checked before anything else\<close>

text \<open>
  Claim C4. A \<open>templateUrl\<close> that fails the pattern of line 38 makes
  \<open>downloadAipptTemplate\<close> fail with \<^verbatim>\<open>Invalid template URL\<close>, and a call made while
  \<^verbatim>\<open>AIPPT_USERNAME\<close> or \<^verbatim>\<open>AIPPT_PASSWORD\<close> is unset fails with a configuration error
  (that of the URL when the URL is wrong as well, since line 38 comes first). In both
  cases the trace is empty (no temporary directory, no launch, no context, no
  navigation) and the session manager is untouched.
\<close>

theorem configuration_errors_come_first:
  "(\<not> url_ok templateUrl \<longrightarrow>
      downloadAipptTemplate w m templateUrl opts =
        (m, ([], Inl (Error ''Invalid template URL''))))
   \<and> (env_username w = None \<or> env_password w = None \<longrightarrow>
      downloadAipptTemplate w m templateUrl opts =
        (m, ([], Inl (Error (if url_ok templateUrl
                             then ''Missing AIPPT_USERNAME/AIPPT_PASSWORD''
                             else ''Invalid template URL'')))))"
  by (auto simp: downloadAipptTemplate_def throw_def split: option.splits)

theorem configuration_errors_come_first_witness:
  "downloadAipptTemplate plain_world no_browser ''ftp://www.aippt.cn/t/42'' no_options =
     (no_browser, ([], Inl (Error ''Invalid template URL'')))
   \<and> downloadAipptTemplate (plain_world\<lparr>env_password := None\<rparr>) no_browser template_url
         no_options =
     (no_browser, ([], Inl (Error ''Missing AIPPT_USERNAME/AIPPT_PASSWORD'')))"
  using configuration_errors_come_first
          [of "''ftp://www.aippt.cn/t/42''" plain_world no_browser no_options]
        configuration_errors_come_first
          [of template_url "plain_world\<lparr>env_password := None\<rparr>" no_browser no_options]
  by (simp add: url_ok_def template_url_def plain_world_def)

section \<open>Facts about the built-ins\<close>

text \<open>\<open>disp_exec\<close> returns the match at the leftmost position that has one.\<close>

lemma disp_exec_Some_iff:
  "disp_exec s = Some v \<longleftrightarrow>
     (\<exists>i<length s. disp_match_at (drop i s) = Some v \<and> (\<forall>j<i. disp_match_at (drop j s) = None))"
proof (induction s)
  case Nil
  then show ?case by simp
next
  case (Cons c cs)
  show ?case
  proof (cases "disp_match_at (c # cs)")
    case None
    have "(\<exists>i<length (c # cs). disp_match_at (drop i (c # cs)) = Some v \<and>
             (\<forall>j<i. disp_match_at (drop j (c # cs)) = None))
          \<longleftrightarrow> (\<exists>i<length cs. disp_match_at (drop i cs) = Some v \<and>
             (\<forall>j<i. disp_match_at (drop j cs) = None))" (is "?L \<longleftrightarrow> ?R")
    proof
      assume ?L
      then obtain i where i: "i < length (c # cs)" "disp_match_at (drop i (c # cs)) = Some v"
        "\<forall>j<i. disp_match_at (drop j (c # cs)) = None" by blast
      with None obtain k where k: "i = Suc k" by (cases i) auto
      have "\<forall>j<k. disp_match_at (drop j cs) = None"
      proof (intro allI impI)
        fix j assume "j < k"
        then have "Suc j < i" using k by simp
        with i(3) have "disp_match_at (drop (Suc j) (c # cs)) = None" by blast
        then show "disp_match_at (drop j cs) = None" by simp
      qed
      with i k show ?R by auto
    next
      assume ?R
      then obtain i where i: "i < length cs" "disp_match_at (drop i cs) = Some v"
        "\<forall>j<i. disp_match_at (drop j cs) = None" by blast
      have "\<forall>j<Suc i. disp_match_at (drop j (c # cs)) = None"
      proof (intro allI impI)
        fix j assume "j < Suc i"
        then show "disp_match_at (drop j (c # cs)) = None"
          using None i(3) by (cases j) auto
      qed
      with i show ?L by (intro exI [of _ "Suc i"]) simp
    qed
    with None Cons show ?thesis by simp
  next
    case (Some v')
    have "(\<exists>i<length (c # cs). disp_match_at (drop i (c # cs)) = Some v \<and>
             (\<forall>j<i. disp_match_at (drop j (c # cs)) = None)) \<longleftrightarrow> v' = v" (is "?L \<longleftrightarrow> _")
    proof
      assume ?L
      then obtain i where i: "disp_match_at (drop i (c # cs)) = Some v"
        "\<forall>j<i. disp_match_at (drop j (c # cs)) = None" by blast
      have "i = 0"
      proof (rule ccontr)
        assume "i \<noteq> 0"
        then have "disp_match_at (drop 0 (c # cs)) = None" using i(2) by blast
        with Some show False by simp
      qed
      with i Some show "v' = v" by simp
    next
      assume "v' = v"
      with Some show ?L by (intro exI [of _ 0]) simp
    qed
    with Some show ?thesis by simp
  qed
qed

lemma disp_exec_None_iff:
  "disp_exec s = None \<longleftrightarrow> (\<forall>i<length s. disp_match_at (drop i s) = None)"
proof (induction s)
  case Nil
  then show ?case by simp
next
  case (Cons c cs)
  have "(\<forall>i<length (c # cs). disp_match_at (drop i (c # cs)) = None) \<longleftrightarrow>
        disp_match_at (c # cs) = None \<and> (\<forall>i<length cs. disp_match_at (drop i cs) = None)"
    by (auto simp: less_Suc_eq_0_disj)
  with Cons show ?case by (auto split: option.splits)
qed

lemma strip_prefix_ci_append: "strip_prefix_ci p (p @ s) = Some s"
  by (induction p) auto

lemma takeWhile_stop:
  "\<forall>c\<in>set v. P c \<Longrightarrow> rest = [] \<or> \<not> P (hd rest) \<Longrightarrow> takeWhile P (v @ rest) = v"
  by (cases rest) (auto simp: takeWhile_append2 takeWhile_tail)

lemma star_form_at:
  assumes "v \<noteq> []" "CHR '';'' \<notin> set v" "rest = [] \<or> hd rest = CHR '';''"
  shows "disp_match_at (filename_star @ v @ rest) = Some v"
proof -
  have "takeWhile (\<lambda>c. c \<noteq> CHR '';'') (v @ rest) = v"
    using assms by (intro takeWhile_stop) auto
  with assms(1) show ?thesis
    by (simp add: disp_match_at_def disp_alt1_def strip_prefix_ci_append)
qed

lemma alt1_needs_star: "disp_alt1 (''filename='' @ s) = None"
  by (simp add: disp_alt1_def filename_star_def ascii_lower_def)

lemma plain_form_at:
  assumes "v \<noteq> []" "CHR '';'' \<notin> set v" "CHR 0x22 \<notin> set v"
    "rest = [] \<or> hd rest = CHR '';'' \<or> hd rest = CHR 0x22"
  shows "disp_match_at (''filename='' @ v @ rest) = Some v"
    and "disp_match_at (''filename='' @ quote @ v @ rest) = Some v"
proof -
  have tw: "takeWhile (\<lambda>c. c \<noteq> CHR 0x22 \<and> c \<noteq> CHR '';'') (v @ rest) = v"
    using assms by (intro takeWhile_stop) auto
  obtain a v' where v: "v = a # v'" using assms(1) by (cases v) auto
  with assms(3) have a: "a \<noteq> CHR 0x22" by auto
  have s1: "strip_prefix_ci ''filename='' (''filename='' @ v @ rest) = Some (v @ rest)"
    by (rule strip_prefix_ci_append)
  have s2: "strip_prefix_ci ''filename='' (''filename='' @ quote @ v @ rest) = Some (quote @ v @ rest)"
    by (rule strip_prefix_ci_append)
  show "disp_match_at (''filename='' @ v @ rest) = Some v"
    unfolding disp_match_at_def alt1_needs_star disp_alt2_def s1
    using tw a assms(1) by (simp add: v)
  show "disp_match_at (''filename='' @ quote @ v @ rest) = Some v"
    unfolding disp_match_at_def alt1_needs_star disp_alt2_def s2
    using tw assms(1) by (simp add: quote_def)
qed

lemma decodeURIComponent_plain: "CHR ''%'' \<notin> set s \<Longrightarrow> decodeURIComponent s = Inr s"
  by (induction s) auto

lemma url_pathname_https:
  assumes "set host \<inter> set ''/?#'' = {}" "set path \<inter> set ''?#'' = {}"
    "path = [] \<or> hd path = CHR ''/''" "tail = [] \<or> hd tail \<in> set ''?#''"
  shows "url_pathname (''https://'' @ host @ path @ tail) = (if path = [] then ''/'' else path)"
proof -
  have h: "dropWhile (\<lambda>c. c \<notin> set ''/?#'') (host @ path @ tail) = path @ tail"
  proof -
    have "\<forall>c\<in>set host. c \<notin> set ''/?#''" using assms(1) by auto
    then have "dropWhile (\<lambda>c. c \<notin> set ''/?#'') (host @ path @ tail) =
               dropWhile (\<lambda>c. c \<notin> set ''/?#'') (path @ tail)"
      by (simp add: dropWhile_append2)
    also have "\<dots> = path @ tail"
      using assms(3,4) by (cases path; cases tail) auto
    finally show ?thesis .
  qed
  have p: "takeWhile (\<lambda>c. c \<notin> set ''?#'') (path @ tail) = path"
  proof -
    have "\<forall>c\<in>set path. c \<notin> set ''?#''" using assms(2) by auto
    moreover have "tail = [] \<or> \<not> (hd tail \<notin> set ''?#'')" using assms(4) by auto
    ultimately show ?thesis
      by (cases tail) (auto simp: takeWhile_tail)
  qed
  show ?thesis
    unfolding url_pathname_def by (simp add: h p Let_def del: set_simps)
qed

lemma takeWhile_rev_all:
  "CHR ''/'' \<notin> set name \<Longrightarrow> takeWhile (\<lambda>c. c \<noteq> CHR ''/'') (rev name) = rev name"
  by (auto simp: takeWhile_eq_all_conv)

lemma last_segment_after_slash:
  "CHR ''/'' \<notin> set name \<Longrightarrow> last_segment (dir @ ''/'' @ name) = name"
  by (simp add: last_segment_def takeWhile_tail takeWhile_rev_all)

lemma last_segment_plain: "CHR ''/'' \<notin> set name \<Longrightarrow> last_segment name = name"
  by (simp add: last_segment_def takeWhile_rev_all)

lemma split_slash_plain: "CHR ''/'' \<notin> set name \<Longrightarrow> split_slash name = [name]"
  by (induction name) auto

lemma split_slash_nonempty: "split_slash s \<noteq> []"
  by (induction s) (auto split: list.splits)

lemma split_slash_append:
  "CHR ''/'' \<notin> set name \<Longrightarrow> split_slash (d @ CHR ''/'' # name) = split_slash d @ [name]"
  by (induction d) (auto simp: split_slash_plain split_slash_nonempty split: list.splits)

lemma normalize_segments_snoc:
  "name \<noteq> [] \<Longrightarrow> name \<noteq> ''.'' \<Longrightarrow> name \<noteq> ''..'' \<Longrightarrow>
   normalize_segments ab acc (xs @ [name]) = normalize_segments ab acc xs @ [name]"
  by (induction ab acc xs rule: normalize_segments.induct) (auto split: list.splits)

lemma join_slash_snoc:
  "join_slash (ys @ [name]) = (if ys = [] then name else join_slash ys @ ''/'' @ name)"
  by (induction ys rule: join_slash.induct) auto

lemma path_basename_suffix:
  assumes "name \<noteq> []" "CHR ''/'' \<notin> set name" "pre = [] \<or> last pre = CHR ''/''"
  shows "path_basename (pre @ name) = name"
proof -
  have "hd (rev name) \<noteq> CHR ''/''" using assms(1,2) by (metis hd_rev last_in_set)
  then have "dropWhile (\<lambda>c. c = CHR ''/'') (rev name @ rev pre) = rev name @ rev pre"
    using assms(1) by (cases "rev name") auto
  then have b: "path_basename (pre @ name) = last_segment (pre @ name)"
    by (simp add: path_basename_def)
  show ?thesis
  proof (cases "pre = []")
    case True
    with b assms(2) show ?thesis by (simp add: last_segment_plain)
  next
    case False
    with assms(3) obtain d where "pre = d @ ''/''"
      by (metis append_butlast_last_id)
    with b assms(2) show ?thesis using last_segment_after_slash [of name d] by simp
  qed
qed

lemma path_normalize_snoc:
  assumes "plain_name name" "p = name \<or> p = d @ ''/'' @ name"
  shows "\<exists>pre. path_normalize p = pre @ name \<and> (pre = [] \<or> last pre = CHR ''/'')"
proof -
  have n: "name \<noteq> []" "CHR ''/'' \<notin> set name" "name \<noteq> ''.''" "name \<noteq> ''..''"
    using assms(1) by (auto simp: plain_name_def)
  have "split_slash p = [] @ [name] \<or> split_slash p = split_slash d @ [name]"
    using assms(2) n(2) by (auto simp: split_slash_plain split_slash_append)
  then obtain xs where xs: "split_slash p = xs @ [name]" by blast
  have pne: "p \<noteq> []" using assms(2) n(1) by auto
  have "last name \<in> set name" using n(1) by (rule last_in_set)
  with n(2) have "last name \<noteq> CHR ''/''" by metis
  then have lastp: "last p \<noteq> CHR ''/''" using assms(2) n(1) by auto
  define ys where "ys = normalize_segments (hd p \<noteq> CHR ''/'') [] xs"
  have body: "join_slash (normalize_segments (hd p \<noteq> CHR ''/'') [] (split_slash p)) =
              (if ys = [] then name else join_slash ys @ ''/'' @ name)"
    by (simp add: xs normalize_segments_snoc n ys_def join_slash_snoc)
  show ?thesis
  proof (cases "ys = []")
    case True
    with body pne lastp n(1) show ?thesis
      by (cases "hd p = CHR ''/''") (auto simp: path_normalize_def Let_def)
  next
    case False
    with body pne lastp n(1) show ?thesis
      by (cases "hd p = CHR ''/''")
         (auto simp: path_normalize_def Let_def intro: exI [of _ "join_slash ys @ ''/''"]
            exI [of _ "''/'' @ join_slash ys @ ''/''"])
  qed
qed

lemma basename_join_plain:
  assumes "plain_name name"
  shows "path_basename (path_join d name) = name"
proof -
  have n: "name \<noteq> []" "CHR ''/'' \<notin> set name" using assms by (auto simp: plain_name_def)
  have "\<exists>pre. path_join d name = pre @ name \<and> (pre = [] \<or> last pre = CHR ''/'')"
  proof (cases "d = []")
    case True
    then have "path_join d name = path_normalize name" using n(1) by (simp add: path_join_def)
    then show ?thesis using path_normalize_snoc [OF assms, of name d] by simp
  next
    case False
    then have "path_join d name = path_normalize (d @ ''/'' @ name)"
      using n(1) by (simp add: path_join_def)
    then show ?thesis using path_normalize_snoc [OF assms, of "d @ ''/'' @ name" d] by simp
  qed
  then obtain pre where "path_join d name = pre @ name" "pre = [] \<or> last pre = CHR ''/''"
    by blast
  then show ?thesis using path_basename_suffix [OF n, of pre] by simp
qed

lemma header_absent:
  "h ''content-disposition'' = None \<Longrightarrow> h ''Content-Disposition'' = None \<Longrightarrow>
   header_disposition h = []"
  by (simp add: header_disposition_def)

section \<open>The file name of a network response\<close>

text \<open>
  Claim C3, as the code has it. The header is scanned once from the left and the first
  place where either form matches decides: \<^verbatim>\<open>filename*=UTF-8''value\<close> (the value runs to
  the next semicolon) or \<^verbatim>\<open>filename=value\<close>, quoted or not (the value runs to the next
  quote or semicolon). The order of the two alternatives in the pattern gives neither a
  preference: they cannot match at the same place. The captured value is trimmed and
  percent-decoded, and a value without escapes decodes to itself. When no place matches,
  which includes a response without the header, the name is the last segment of the
  URL's path, the query string left out, and \<^verbatim>\<open>aippt-download\<close> when that segment is
  empty: \<^verbatim>\<open>https://host/files/report.pdf?x=1\<close> gives \<^verbatim>\<open>report.pdf\<close>, a URL without a
  path gives the generic name.
\<close>

theorem response_filename_chain:
  "(disp_exec s = Some v \<longleftrightarrow>
      (\<exists>i<length s. disp_match_at (drop i s) = Some v \<and>
                     (\<forall>j<i. disp_match_at (drop j s) = None)))
   \<and> (v \<noteq> [] \<and> CHR '';'' \<notin> set v \<and> (rest = [] \<or> hd rest = CHR '';'') \<longrightarrow>
        disp_match_at (filename_star @ v @ rest) = Some v)
   \<and> (v \<noteq> [] \<and> CHR '';'' \<notin> set v \<and> CHR 0x22 \<notin> set v \<and>
        (rest = [] \<or> hd rest = CHR '';'' \<or> hd rest = CHR 0x22) \<longrightarrow>
        disp_match_at (''filename='' @ v @ rest) = Some v \<and>
        disp_match_at (''filename='' @ quote @ v @ rest) = Some v)
   \<and> (disp_exec (header_disposition (resp_headers resp)) = Some v \<longrightarrow>
        response_filename resp = decodeURIComponent (trim v))
   \<and> (CHR ''%'' \<notin> set u \<longrightarrow> decodeURIComponent u = Inr u)
   \<and> (disp_exec (header_disposition (resp_headers resp)) = None \<longrightarrow>
        response_filename resp =
          Inr (if last_segment (url_pathname (resp_url resp)) \<noteq> []
               then last_segment (url_pathname (resp_url resp)) else generic_name))
   \<and> (resp_headers resp ''content-disposition'' = None \<and>
        resp_headers resp ''Content-Disposition'' = None \<longrightarrow>
        disp_exec (header_disposition (resp_headers resp)) = None)
   \<and> (set host \<inter> set ''/?#'' = {} \<and> set dir \<inter> set ''?#'' = {} \<and>
        (dir = [] \<or> hd dir = CHR ''/'') \<and> set name \<inter> set ''/?#'' = {} \<and>
        (q = [] \<or> hd q \<in> set ''?#'') \<longrightarrow>
        last_segment (url_pathname (''https://'' @ host @ dir @ ''/'' @ name @ q)) = name \<and>
        last_segment (url_pathname (''https://'' @ host @ q)) = [])"
proof (intro conjI impI)
  show "disp_exec s = Some v \<longleftrightarrow>
      (\<exists>i<length s. disp_match_at (drop i s) = Some v \<and>
                     (\<forall>j<i. disp_match_at (drop j s) = None))"
    by (rule disp_exec_Some_iff)
next
  assume "v \<noteq> [] \<and> CHR '';'' \<notin> set v \<and> (rest = [] \<or> hd rest = CHR '';'')"
  then show "disp_match_at (filename_star @ v @ rest) = Some v"
    by (intro star_form_at) auto
next
  assume a: "v \<noteq> [] \<and> CHR '';'' \<notin> set v \<and> CHR 0x22 \<notin> set v \<and>
        (rest = [] \<or> hd rest = CHR '';'' \<or> hd rest = CHR 0x22)"
  then show "disp_match_at (''filename='' @ v @ rest) = Some v"
    by (intro plain_form_at(1)) auto
  from a show "disp_match_at (''filename='' @ quote @ v @ rest) = Some v"
    by (intro plain_form_at(2)) auto
next
  assume "disp_exec (header_disposition (resp_headers resp)) = Some v"
  then show "response_filename resp = decodeURIComponent (trim v)"
    by (simp add: response_filename_def)
next
  assume "CHR ''%'' \<notin> set u"
  then show "decodeURIComponent u = Inr u" by (rule decodeURIComponent_plain)
next
  assume "disp_exec (header_disposition (resp_headers resp)) = None"
  then show "response_filename resp =
          Inr (if last_segment (url_pathname (resp_url resp)) \<noteq> []
               then last_segment (url_pathname (resp_url resp)) else generic_name)"
    by (simp add: response_filename_def Let_def)
next
  assume "resp_headers resp ''content-disposition'' = None \<and>
        resp_headers resp ''Content-Disposition'' = None"
  then show "disp_exec (header_disposition (resp_headers resp)) = None"
    by (simp add: header_absent)
next
  assume a: "set host \<inter> set ''/?#'' = {} \<and> set dir \<inter> set ''?#'' = {} \<and>
        (dir = [] \<or> hd dir = CHR ''/'') \<and> set name \<inter> set ''/?#'' = {} \<and>
        (q = [] \<or> hd q \<in> set ''?#'')"
  then have n: "CHR ''/'' \<notin> set name" by auto
  have "set (dir @ ''/'' @ name) \<inter> set ''?#'' = {}" using a by auto
  moreover have "dir @ ''/'' @ name = [] \<or> hd (dir @ ''/'' @ name) = CHR ''/''"
    using a by (cases dir) auto
  ultimately have "url_pathname (''https://'' @ host @ (dir @ ''/'' @ name) @ q) = dir @ ''/'' @ name"
    using a url_pathname_https [of host "dir @ ''/'' @ name" q] by simp
  then show "last_segment (url_pathname (''https://'' @ host @ dir @ ''/'' @ name @ q)) = name"
    using last_segment_after_slash [OF n, of dir] by simp
  have "url_pathname (''https://'' @ host @ [] @ q) = ''/''"
    using a url_pathname_https [of host "[]" q] by simp
  then show "last_segment (url_pathname (''https://'' @ host @ q)) = []"
    by (simp add: last_segment_def)
qed

text \<open>The chain at the two URLs of the claim and at the header of \<open>response_x\<close>; each
  form matched where it stands, and the scan reaching a form that does not come first.\<close>

theorem response_filename_chain_witness:
  "response_filename (response_at ''https://cdn.aippt.cn/files/report.pdf?x=1'') = Inr ''report.pdf''
   \<and> response_filename (response_at ''https://cdn.aippt.cn'') = Inr ''aippt-download''
   \<and> response_filename response_x = Inr ''x.pptx''
   \<and> disp_match_at (filename_star @ ''b.pptx'' @ []) = Some ''b.pptx''
   \<and> disp_match_at (''filename='' @ ''a.pptx'' @ ''; x'') = Some ''a.pptx''
   \<and> disp_match_at (''filename='' @ quote @ ''a.pptx'' @ quote) = Some ''a.pptx''
   \<and> disp_exec (''; '' @ filename_star @ ''b.pptx'') = Some ''b.pptx''"
proof -
  note leftmost = response_filename_chain [THEN conjunct1]
  note star = response_filename_chain [THEN conjunct2, THEN conjunct1]
  note plain = response_filename_chain [THEN conjunct2, THEN conjunct2, THEN conjunct1]
  note decoded = response_filename_chain
    [THEN conjunct2, THEN conjunct2, THEN conjunct2, THEN conjunct1]
  note no_escape = response_filename_chain
    [THEN conjunct2, THEN conjunct2, THEN conjunct2, THEN conjunct2, THEN conjunct1]
  note fallback = response_filename_chain
    [THEN conjunct2, THEN conjunct2, THEN conjunct2, THEN conjunct2, THEN conjunct2,
     THEN conjunct1]
  note absent = response_filename_chain
    [THEN conjunct2, THEN conjunct2, THEN conjunct2, THEN conjunct2, THEN conjunct2,
     THEN conjunct2, THEN conjunct1]
  note url = response_filename_chain
    [THEN conjunct2, THEN conjunct2, THEN conjunct2, THEN conjunct2, THEN conjunct2,
     THEN conjunct2, THEN conjunct2]
  have u: "last_segment (url_pathname (''https://'' @ ''cdn.aippt.cn'' @ ''/files'' @ ''/'' @ ''report.pdf'' @ ''?x=1'')) = ''report.pdf''
         \<and> last_segment (url_pathname (''https://'' @ ''cdn.aippt.cn'' @ [])) = []"
    using url [of "''cdn.aippt.cn''" "''/files''" "''report.pdf''" "''?x=1''"]
          url [of "''cdn.aippt.cn''" "''/files''" "''report.pdf''" "[]"]
    by simp
  have 1: "response_filename (response_at ''https://cdn.aippt.cn/files/report.pdf?x=1'') = Inr ''report.pdf''"
    using fallback [of "response_at ''https://cdn.aippt.cn/files/report.pdf?x=1''"]
      absent [of "response_at ''https://cdn.aippt.cn/files/report.pdf?x=1''"] u
    by (simp add: response_at_def)
  have 2: "response_filename (response_at ''https://cdn.aippt.cn'') = Inr ''aippt-download''"
    using fallback [of "response_at ''https://cdn.aippt.cn''"]
      absent [of "response_at ''https://cdn.aippt.cn''"] u
    by (simp add: response_at_def generic_name_def)
  have h: "header_disposition (resp_headers response_x) =
           ''attachment; '' @ ''filename='' @ quote @ ''x.pptx'' @ quote"
    by (simp add: response_x_def header_disposition_def)
  have "disp_exec (header_disposition (resp_headers response_x)) = Some ''x.pptx''"
    by (simp add: h quote_def disp_match_at_def disp_alt1_def disp_alt2_def filename_star_def
          ascii_lower_def)
  then have 3: "response_filename response_x = Inr ''x.pptx''"
    using decoded [of response_x "''x.pptx''"] no_escape [of "''x.pptx''"]
    by (simp add: trim_def is_ws1_def is_ws2_def is_ws3_def)
  have 4: "disp_match_at (filename_star @ ''b.pptx'' @ []) = Some ''b.pptx''"
    using star [of "''b.pptx''" "[]"] by simp
  have 5: "disp_match_at (''filename='' @ ''a.pptx'' @ ''; x'') = Some ''a.pptx''"
    using plain [of "''a.pptx''" "''; x''"] by simp
  have 6: "disp_match_at (''filename='' @ quote @ ''a.pptx'' @ quote) = Some ''a.pptx''"
    using plain [of "''a.pptx''" quote] by (simp add: quote_def)
  have m0: "disp_match_at (drop 0 (''; '' @ filename_star @ ''b.pptx'')) = None"
    and m1: "disp_match_at (drop 1 (''; '' @ filename_star @ ''b.pptx'')) = None"
    by (simp_all add: disp_match_at_def disp_alt1_def disp_alt2_def filename_star_def
          ascii_lower_def)
  have "\<forall>j<2. disp_match_at (drop j (''; '' @ filename_star @ ''b.pptx'')) = None"
  proof (intro allI impI)
    fix j :: nat assume "j < 2"
    then have "j = 0 \<or> j = 1" by auto
    with m0 m1 show "disp_match_at (drop j (''; '' @ filename_star @ ''b.pptx'')) = None"
      by auto
  qed
  moreover have "disp_match_at (drop 2 (''; '' @ filename_star @ ''b.pptx'')) = Some ''b.pptx''"
    using 4 by simp
  moreover have "2 < length (''; '' @ filename_star @ ''b.pptx'')" by simp
  ultimately have 7: "disp_exec (''; '' @ filename_star @ ''b.pptx'') = Some ''b.pptx''"
    unfolding leftmost [of "''; '' @ filename_star @ ''b.pptx''" "''b.pptx''"] by blast
  from 1 2 3 4 5 6 7 show ?thesis by blast
qed

text \<open>
  The claim as written has the \<^verbatim>\<open>filename*=\<close> form matched first. In the header of
  \<open>response_both\<close> that form matches at offset 31 with value \<^verbatim>\<open>b.pptx\<close>, and the name
  derived is \<^verbatim>\<open>a.pptx\<close>, from the plain form at offset 12.
\<close>

theorem leftmost_form_wins_counterexample:
  "disp_alt1 (drop 31 (header_disposition (resp_headers response_both))) = Some ''b.pptx''
   \<and> response_filename response_both = Inr ''a.pptx''"
  by (simp add: response_both_def response_filename_def header_disposition_def
        disp_match_at_def disp_alt1_def disp_alt2_def filename_star_def ascii_lower_def
        trim_def is_ws1_def is_ws2_def is_ws3_def quote_def)

section \<open>The search for the download control\<close>

lemma try_candidates_clicked:
  "snd (try_candidates a sels) \<longleftrightarrow> (\<exists>sel\<in>set sels. click_succeeds a sel)"
  by (induction sels) (auto simp: click_succeeds_def split: prod.splits)

lemma try_candidates_trace:
  "fst (try_candidates a sels) =
     concat (map (\<lambda>s. [Click s, ForceClick s])
               (filter (\<lambda>s. sel_count a s > 0) (takeWhile (\<lambda>s. \<not> click_succeeds a s) sels))) @
     (case find (click_succeeds a) sels of
        None \<Rightarrow> []
      | Some s \<Rightarrow> if click_ok a s then [Click s] else [Click s, ForceClick s])"
  by (induction sels) (auto simp: click_succeeds_def split: prod.splits)

lemma query_and_click_found:
  "snd (query_and_click a sels) \<longleftrightarrow>
     (\<exists>sel\<in>set sels. \<exists>txt. query_text a sel = Some txt \<and> js_includes txt download_label)"
  by (induction sels) (auto split: option.splits)

lemma query_and_click_trace:
  "ef \<in> set (fst (query_and_click a sels)) \<Longrightarrow>
     \<exists>sel\<in>set sels. ef = EvaluateClick sel \<and>
        (\<exists>txt. query_text a sel = Some txt \<and> js_includes txt download_label)"
  by (induction sels) (auto split: option.splits if_splits)

lemma try_candidates_no_evaluate: "EvaluateClick s \<notin> set (fst (try_candidates a sels))"
  by (induction sels) (auto split: prod.splits)

lemma search_and_click_result:
  "snd (search_and_click a) =
     (if (\<exists>sel\<in>set candidates. click_succeeds a sel) \<or>
         (\<exists>sel\<in>set last_resort_selectors. \<exists>txt. query_text a sel = Some txt \<and>
             js_includes txt download_label)
      then Inr () else Inl (Error trigger_not_found))"
proof -
  obtain t r where tc: "try_candidates a candidates = (t, r)" by (cases "try_candidates a candidates")
  obtain t' r' where qc: "query_and_click a last_resort_selectors = (t', r')"
    by (cases "query_and_click a last_resort_selectors")
  have r: "r \<longleftrightarrow> (\<exists>sel\<in>set candidates. click_succeeds a sel)"
    using try_candidates_clicked [of a candidates] tc by simp
  have r': "r' \<longleftrightarrow> (\<exists>sel\<in>set last_resort_selectors. \<exists>txt. query_text a sel = Some txt \<and>
             js_includes txt download_label)"
    using query_and_click_found [of a last_resort_selectors] qc by simp
  show ?thesis
    unfolding search_and_click_def tc qc using r r' by (cases r; cases r') auto
qed

lemma search_and_click_trace:
  "fst (search_and_click a) =
     fst (try_candidates a candidates) @
     (if snd (try_candidates a candidates) then [] else fst (query_and_click a last_resort_selectors))"
  by (auto simp: search_and_click_def split: prod.splits bool.splits)

text \<open>
  Claim C2, as the code has it. The candidates are tried in the order of the list, a
  click (plain, then forced) being attempted on each selector that has a match, until one
  goes through; the selector clicked is the first in the list whose click succeeds. On a
  page where only the third selector matches and its button can be clicked, that button
  is clicked and the search succeeds. The query inside the document runs only when no
  candidate was clicked, over the tracking attribute and the two classes, and clicks an
  element whose text contains the label. The search fails, with the message of line 167,
  exactly when no candidate's click succeeds and the query finds no such element.
\<close>

theorem selector_fallback_order:
  "candidates = [TrackWithLabel, Track, ButtonWithLabel, AnchorWithLabel, ClassGradient, ClassMl3]
   \<and> fst (try_candidates a candidates) =
       concat (map (\<lambda>s. [Click s, ForceClick s])
                 (filter (\<lambda>s. sel_count a s > 0)
                    (takeWhile (\<lambda>s. \<not> click_succeeds a s) candidates))) @
       (case find (click_succeeds a) candidates of
          None \<Rightarrow> []
        | Some s \<Rightarrow> if click_ok a s then [Click s] else [Click s, ForceClick s])
   \<and> ((\<forall>sel. sel_count a sel > 0 \<longleftrightarrow> sel = ButtonWithLabel) \<and>
        (click_ok a ButtonWithLabel \<or> force_click_ok a ButtonWithLabel) \<longrightarrow>
        search_and_click a =
          (if click_ok a ButtonWithLabel then [Click ButtonWithLabel]
           else [Click ButtonWithLabel, ForceClick ButtonWithLabel], Inr ()))
   \<and> (EvaluateClick s \<in> set (fst (search_and_click a)) \<longrightarrow>
        (\<forall>sel\<in>set candidates. \<not> click_succeeds a sel) \<and> s \<in> set last_resort_selectors \<and>
        (\<exists>txt. query_text a s = Some txt \<and> js_includes txt download_label))
   \<and> (snd (search_and_click a) = Inl e \<longleftrightarrow>
        e = Error trigger_not_found \<and>
        (\<forall>sel\<in>set candidates. \<not> click_succeeds a sel) \<and>
        (\<forall>sel\<in>set last_resort_selectors. \<forall>txt.
            query_text a sel = Some txt \<longrightarrow> \<not> js_includes txt download_label))"
proof (intro conjI impI)
  show "candidates = [TrackWithLabel, Track, ButtonWithLabel, AnchorWithLabel, ClassGradient, ClassMl3]"
    by (simp add: candidates_def)
  show "fst (try_candidates a candidates) =
       concat (map (\<lambda>s. [Click s, ForceClick s])
                 (filter (\<lambda>s. sel_count a s > 0)
                    (takeWhile (\<lambda>s. \<not> click_succeeds a s) candidates))) @
       (case find (click_succeeds a) candidates of
          None \<Rightarrow> []
        | Some s \<Rightarrow> if click_ok a s then [Click s] else [Click s, ForceClick s])"
    by (rule try_candidates_trace)
next
  assume h: "(\<forall>sel. sel_count a sel > 0 \<longleftrightarrow> sel = ButtonWithLabel) \<and>
        (click_ok a ButtonWithLabel \<or> force_click_ok a ButtonWithLabel)"
  then have "try_candidates a candidates =
      (if click_ok a ButtonWithLabel then [Click ButtonWithLabel]
       else [Click ButtonWithLabel, ForceClick ButtonWithLabel], True)"
    by (auto simp: candidates_def)
  then show "search_and_click a =
          (if click_ok a ButtonWithLabel then [Click ButtonWithLabel]
           else [Click ButtonWithLabel, ForceClick ButtonWithLabel], Inr ())"
    by (simp add: search_and_click_def)
next
  assume ev: "EvaluateClick s \<in> set (fst (search_and_click a))"
  then have nc: "\<not> snd (try_candidates a candidates)"
    and q: "EvaluateClick s \<in> set (fst (query_and_click a last_resort_selectors))"
    using try_candidates_no_evaluate [of s a candidates]
    by (auto simp: search_and_click_trace split: if_splits)
  from nc show "\<forall>sel\<in>set candidates. \<not> click_succeeds a sel"
    by (simp add: try_candidates_clicked)
  from query_and_click_trace [OF q]
  show "s \<in> set last_resort_selectors" 
    and "\<exists>txt. query_text a s = Some txt \<and> js_includes txt download_label"
    by auto
next
  show "snd (search_and_click a) = Inl e \<longleftrightarrow>
        e = Error trigger_not_found \<and>
        (\<forall>sel\<in>set candidates. \<not> click_succeeds a sel) \<and>
        (\<forall>sel\<in>set last_resort_selectors. \<forall>txt.
            query_text a sel = Some txt \<longrightarrow> \<not> js_includes txt download_label)"
    unfolding search_and_click_result by auto
qed

text \<open>The page of the claim, with a button that can be clicked, a page without any
  control, and a page where only the query inside the document finds the button.\<close>

theorem selector_fallback_order_witness:
  "search_and_click third_only = ([Click ButtonWithLabel], Inr ())
   \<and> snd (search_and_click blank_page) = Inl (Error trigger_not_found)
   \<and> search_and_click query_only = ([EvaluateClick Track], Inr ())
   \<and> \<not> list_ex (click_succeeds query_only) candidates"
proof -
  note third = selector_fallback_order [THEN conjunct2, THEN conjunct2, THEN conjunct1]
  note evaluated = selector_fallback_order
    [THEN conjunct2, THEN conjunct2, THEN conjunct2, THEN conjunct1]
  note failure = selector_fallback_order
    [THEN conjunct2, THEN conjunct2, THEN conjunct2, THEN conjunct2]
  have only: "\<forall>sel. sel_count third_only sel > 0 \<longleftrightarrow> sel = ButtonWithLabel"
    by (simp add: third_only_def blank_page_def)
  have ok: "click_ok third_only ButtonWithLabel"
    by (simp add: third_only_def blank_page_def)
  have 1: "search_and_click third_only = ([Click ButtonWithLabel], Inr ())"
    using third [of third_only] only ok by simp
  have none: "\<forall>sel\<in>set candidates. \<not> click_succeeds blank_page sel"
    by (simp add: click_succeeds_def blank_page_def)
  have unlabelled: "\<forall>sel\<in>set last_resort_selectors. \<forall>txt.
      query_text blank_page sel = Some txt \<longrightarrow> \<not> js_includes txt download_label"
    by (simp add: blank_page_def)
  have 2: "snd (search_and_click blank_page) = Inl (Error trigger_not_found)"
    by (rule failure [of blank_page "Error trigger_not_found", THEN iffD2])
       (use none unlabelled in simp)
  have 3: "search_and_click query_only = ([EvaluateClick Track], Inr ())"
    by (simp add: search_and_click_def query_only_def blank_page_def candidates_def
          last_resort_selectors_def download_label_def)
  then have "EvaluateClick Track \<in> set (fst (search_and_click query_only))" by simp
  with evaluated [of Track query_only]
  have 4: "\<not> list_ex (click_succeeds query_only) candidates"
    by (simp add: list_ex_iff)
  from 1 2 3 4 show ?thesis by blast
qed

text \<open>
  The claim as written promises a click and no error on every page where only the third
  selector matches. On \<open>third_only_stuck\<close> that button is there and both clicks on it
  throw (lines 137 and 143 catch them): the query of the last resort does not look for
  this selector, and line 167 throws.
\<close>

theorem unclickable_third_counterexample:
  "map (sel_count third_only_stuck) candidates = [0, 0, 1, 0, 0, 0]
   \<and> search_and_click third_only_stuck =
       ([Click ButtonWithLabel, ForceClick ButtonWithLabel], Inl (Error trigger_not_found))"
  by (simp add: third_only_stuck_def blank_page_def candidates_def search_and_click_def
        last_resort_selectors_def)

section \<open>The priority of the completion signals\<close>

lemma and_then_Inl: "snd m = Inl e \<Longrightarrow> and_then m f = (fst m, Inl e)"
  by (cases m) (simp add: and_then_def)

lemma and_then_Inr: "snd m = Inr x \<Longrightarrow> and_then m f = (fst m @ fst (f x), snd (f x))"
  by (cases m; cases "f x") (simp add: and_then_def)

lemma x_pptx_header:
  "disp_exec (''attachment; filename='' @ quote @ ''x.pptx'' @ quote) = Some ''x.pptx''"
  by (simp add: quote_def disp_match_at_def disp_alt1_def disp_alt2_def filename_star_def
        ascii_lower_def)

lemma x_pptx_name:
  assumes "header_disposition (resp_headers r) = ''attachment; filename='' @ quote @ ''x.pptx'' @ quote"
  shows "response_filename r = Inr ''x.pptx''"
proof -
  have "trim ''x.pptx'' = ''x.pptx''"
    by (simp add: trim_def is_ws1_def is_ws2_def is_ws3_def)
  then show ?thesis
    unfolding response_filename_def assms Let_def x_pptx_header
    by (simp add: decodeURIComponent_plain)
qed

lemma plain_x_pptx: "plain_name ''x.pptx''"
  by (simp add: plain_name_def)

text \<open>
  Claim C1, as the code has it. After the click, \<^verbatim>\<open>clickImmediateDownload\<close> returns at
  most one signal, in this priority: the native download event; without it, when a popup
  appeared, the download event inside the popup, and failing that the one that follows a
  click on a download control of the popup, if it shows one; in every other case the
  response captured by the response listener, which is the first response of the page
  that the predicate accepts, or nothing. A signal is returned whenever the native event
  fired, and whenever a matching response fired unless a popup without a download of its
  own could not be asked for its control: the query of line 180 is not caught, so its
  rejection is the outcome of the call, captured response or not. A popup alone does not
  make a signal. When only a response with
  \<^verbatim>\<open>content-disposition: attachment; filename="x.pptx"\<close> fired and its body can be
  written, the artifact's file name is \<^verbatim>\<open>x.pptx\<close>, whatever the temporary directory.
\<close>

theorem signal_priority:
  "(download_event a = Some d \<longrightarrow> await_signal a = ([], Inr (Some (NativeDownload d))))
   \<and> (download_event a = None \<and> popup_event a = Some p \<and> popup_download p = Some d \<longrightarrow>
        await_signal a = ([], Inr (Some (PopupNavigatedDownload d))))
   \<and> (download_event a = None \<and> popup_event a = Some p \<and> popup_download p = None \<and>
        popup_control_count p = Inr n \<and> n > 0 \<and> popup_click_download p = Some d \<longrightarrow>
        await_signal a = ([PopupClick], Inr (Some (PopupNavigatedDownload d))))
   \<and> (download_event a = None \<and>
        (popup_event a = None \<or>
         (popup_event a = Some p \<and> popup_download p = None \<and> popup_control_count p = Inr n \<and>
          (n = 0 \<or> popup_click_download p = None))) \<longrightarrow>
        snd (await_signal a) = Inr (map_option NetworkResponse (responseListener a)))
   \<and> (download_event a = None \<and> popup_event a = Some p \<and> popup_download p = None \<and>
        popup_control_count p = Inl e \<longrightarrow>
        await_signal a = ([], Inl e) \<and>
        (snd (search_and_click a) = Inr () \<longrightarrow> snd (clickImmediateDownload a) = Inl e))
   \<and> (responseListener a = Some r \<longleftrightarrow>
        (\<exists>i<length (page_responses a).
            page_responses a ! i = r \<and> is_file_response r \<and>
            (\<forall>j<i. \<not> is_file_response (page_responses a ! j))))
   \<and> (download_event a \<noteq> None \<or>
        (responseListener a \<noteq> None \<and>
         (popup_event a = None \<or>
          (\<exists>q. popup_event a = Some q \<and>
               (popup_download q \<noteq> None \<or> (\<exists>k. popup_control_count q = Inr k))))) \<longrightarrow>
        (\<exists>sig. snd (await_signal a) = Inr (Some sig)))
   \<and> (snd (search_and_click a) = Inr () \<longrightarrow>
        snd (clickImmediateDownload a) = snd (await_signal a))
   \<and> (snd (search_and_click a) = Inr () \<and> download_event a = None \<and> popup_event a = None \<and>
        responseListener a = Some r \<and>
        header_disposition (resp_headers r) =
          ''attachment; filename='' @ quote @ ''x.pptx'' @ quote \<and>
        resp_body r = Inr buf \<and> write_file_result w (path_join tmpDir ''x.pptx'') = None \<longrightarrow>
        snd (clickImmediateDownload a) = Inr (Some (NetworkResponse r)) \<and>
        (\<exists>art. snd (materialize w tmpDir (NetworkResponse r)) = Inr art \<and>
               filename art = ''x.pptx''))"
proof (intro conjI impI)
  assume "download_event a = Some d"
  then show "await_signal a = ([], Inr (Some (NativeDownload d)))"
    by (simp add: await_signal_def)
next
  assume "download_event a = None \<and> popup_event a = Some p \<and> popup_download p = Some d"
  then show "await_signal a = ([], Inr (Some (PopupNavigatedDownload d)))"
    by (simp add: await_signal_def)
next
  assume "download_event a = None \<and> popup_event a = Some p \<and> popup_download p = None \<and>
        popup_control_count p = Inr n \<and> n > 0 \<and> popup_click_download p = Some d"
  then show "await_signal a = ([PopupClick], Inr (Some (PopupNavigatedDownload d)))"
    by (simp add: await_signal_def)
next
  assume "download_event a = None \<and>
        (popup_event a = None \<or>
         (popup_event a = Some p \<and> popup_download p = None \<and> popup_control_count p = Inr n \<and>
          (n = 0 \<or> popup_click_download p = None)))"
  then show "snd (await_signal a) = Inr (map_option NetworkResponse (responseListener a))"
    by (auto simp: await_signal_def)
next
  assume h: "download_event a = None \<and> popup_event a = Some p \<and> popup_download p = None \<and>
        popup_control_count p = Inl e"
  then show r: "await_signal a = ([], Inl e)"
    by (simp add: await_signal_def)
  assume "snd (search_and_click a) = Inr ()"
  then show "snd (clickImmediateDownload a) = Inl e"
    using r by (simp add: clickImmediateDownload_def and_then_Inr)
next
  show "responseListener a = Some r \<longleftrightarrow>
        (\<exists>i<length (page_responses a).
            page_responses a ! i = r \<and> is_file_response r \<and>
            (\<forall>j<i. \<not> is_file_response (page_responses a ! j)))"
    by (auto simp: responseListener_def find_Some_iff)
next
  assume "download_event a \<noteq> None \<or>
        (responseListener a \<noteq> None \<and>
         (popup_event a = None \<or>
          (\<exists>q. popup_event a = Some q \<and>
               (popup_download q \<noteq> None \<or> (\<exists>k. popup_control_count q = Inr k)))))"
  then show "\<exists>sig. snd (await_signal a) = Inr (Some sig)"
    by (auto simp: await_signal_def split: option.splits)
next
  assume "snd (search_and_click a) = Inr ()"
  then show "snd (clickImmediateDownload a) = snd (await_signal a)"
    by (simp add: clickImmediateDownload_def and_then_Inr)
next
  assume h: "snd (search_and_click a) = Inr () \<and> download_event a = None \<and> popup_event a = None \<and>
        responseListener a = Some r \<and>
        header_disposition (resp_headers r) =
          ''attachment; filename='' @ quote @ ''x.pptx'' @ quote \<and>
        resp_body r = Inr buf \<and> write_file_result w (path_join tmpDir ''x.pptx'') = None"
  then show "snd (clickImmediateDownload a) = Inr (Some (NetworkResponse r))"
    by (simp add: clickImmediateDownload_def and_then_Inr await_signal_def)
  from h have n: "response_filename r = Inr ''x.pptx''" by (intro x_pptx_name) simp
  have "filename (make_artifact tmpDir (path_join tmpDir ''x.pptx'')) = ''x.pptx''"
    using basename_join_plain [OF plain_x_pptx] by (simp add: make_artifact_def)
  with h n show "\<exists>art. snd (materialize w tmpDir (NetworkResponse r)) = Inr art \<and>
               filename art = ''x.pptx''"
    by (simp add: materialize_response_def and_then_def call_unit_def ret_def Let_def)
qed

text \<open>The fixture of the claim, where the click goes through and \<open>response_x\<close> is all
  that fires, and one page for each of the other ways the call ends: the native event,
  the download of the popup, the download after the click in the popup, the response
  behind a popup that shows no control, and the popup that is closed when queried.\<close>

theorem signal_priority_witness:
  "snd (clickImmediateDownload (third_only\<lparr>page_responses := [response_x]\<rparr>)) =
     Inr (Some (NetworkResponse response_x))
   \<and> snd (materialize plain_world ''/tmp/aippt-AbC123'' (NetworkResponse response_x)) =
       Inr \<lparr>filePath = ''/tmp/aippt-AbC123/x.pptx'', filename = ''x.pptx'',
            cleanup_dir = ''/tmp/aippt-AbC123''\<rparr>
   \<and> await_signal native_page = ([], Inr (Some (NativeDownload download_y)))
   \<and> await_signal popup_page = ([], Inr (Some (PopupNavigatedDownload download_y)))
   \<and> await_signal popup_control_page =
       ([PopupClick], Inr (Some (PopupNavigatedDownload download_y)))
   \<and> snd (await_signal idle_popup_page) = Inr (Some (NetworkResponse response_x))
   \<and> is_file_response response_x
   \<and> responseListener closed_popup_page = Some response_x
   \<and> await_signal closed_popup_page = ([], Inl target_closed)
   \<and> snd (clickImmediateDownload closed_popup_page) = Inl target_closed
   \<and> snd (clickImmediateDownload native_page) = Inr (Some (NativeDownload download_y))"
proof -
  note native = signal_priority [THEN conjunct1]
  note nested = signal_priority [THEN conjunct2, THEN conjunct1]
  note control = signal_priority [THEN conjunct2, THEN conjunct2, THEN conjunct1]
  note fallback = signal_priority [THEN conjunct2, THEN conjunct2, THEN conjunct2, THEN conjunct1]
  note rejected = signal_priority
    [THEN conjunct2, THEN conjunct2, THEN conjunct2, THEN conjunct2, THEN conjunct1]
  note listened = signal_priority
    [THEN conjunct2, THEN conjunct2, THEN conjunct2, THEN conjunct2, THEN conjunct2,
     THEN conjunct1]
  note some = signal_priority
    [THEN conjunct2, THEN conjunct2, THEN conjunct2, THEN conjunct2, THEN conjunct2,
     THEN conjunct2, THEN conjunct1]
  note clicked = signal_priority
    [THEN conjunct2, THEN conjunct2, THEN conjunct2, THEN conjunct2, THEN conjunct2,
     THEN conjunct2, THEN conjunct2, THEN conjunct1]
  note only_response = signal_priority
    [THEN conjunct2, THEN conjunct2, THEN conjunct2, THEN conjunct2, THEN conjunct2,
     THEN conjunct2, THEN conjunct2, THEN conjunct2]
  let ?a = "third_only\<lparr>page_responses := [response_x]\<rparr>"
  have hd: "header_disposition (resp_headers response_x) =
            ''attachment; filename='' @ quote @ ''x.pptx'' @ quote"
    by (simp add: response_x_def header_disposition_def)
  have f: "is_file_response response_x"
    unfolding is_file_response_def hd by (simp add: quote_def ascii_lower_def)
  have l: "responseListener ?a = Some response_x"
    using f by (simp add: responseListener_def)
  have c: "snd (search_and_click ?a) = Inr ()"
    by (simp add: search_and_click_def third_only_def blank_page_def candidates_def)
  have e: "download_event ?a = None \<and> popup_event ?a = None"
    by (simp add: third_only_def blank_page_def)
  have b: "resp_body response_x = Inr ''PK''" by (simp add: response_x_def)
  have wr: "write_file_result plain_world (path_join ''/tmp/aippt-AbC123'' ''x.pptx'') = None"
    by (simp add: plain_world_def)
  from only_response [of ?a response_x "''PK''" plain_world "''/tmp/aippt-AbC123''"] c e l hd b wr
  obtain art where 1: "snd (clickImmediateDownload ?a) = Inr (Some (NetworkResponse response_x))"
    and 2: "snd (materialize plain_world ''/tmp/aippt-AbC123'' (NetworkResponse response_x)) = Inr art"
    and 3: "filename art = ''x.pptx''"
    by blast
  have p: "path_join ''/tmp/aippt-AbC123'' ''x.pptx'' = ''/tmp/aippt-AbC123/x.pptx''"
    by (simp add: path_join_def path_normalize_def)
  have "materialize_response plain_world ''/tmp/aippt-AbC123'' response_x =
        ([WriteFile ''/tmp/aippt-AbC123/x.pptx''],
         Inr (make_artifact ''/tmp/aippt-AbC123'' ''/tmp/aippt-AbC123/x.pptx''))"
    using x_pptx_name [OF hd] b wr
    by (simp add: materialize_response_def p and_then_def call_unit_def ret_def Let_def)
  with 2 3 have 4: "snd (materialize plain_world ''/tmp/aippt-AbC123'' (NetworkResponse response_x)) =
       Inr \<lparr>filePath = ''/tmp/aippt-AbC123/x.pptx'', filename = ''x.pptx'',
            cleanup_dir = ''/tmp/aippt-AbC123''\<rparr>"
    by (auto simp: make_artifact_def)
  have 5: "await_signal native_page = ([], Inr (Some (NativeDownload download_y)))"
    using native [of native_page download_y] by (simp add: native_page_def)
  have 6: "await_signal popup_page = ([], Inr (Some (PopupNavigatedDownload download_y)))"
    using nested [of popup_page "idle_popup\<lparr>popup_download := Some download_y\<rparr>" download_y]
    by (simp add: popup_page_def third_only_def blank_page_def)
  have 7: "await_signal popup_control_page =
             ([PopupClick], Inr (Some (PopupNavigatedDownload download_y)))"
    using control [of popup_control_page
        "idle_popup\<lparr>popup_control_count := Inr 1, popup_click_download := Some download_y\<rparr>"
        1 download_y]
    by (simp add: popup_control_page_def third_only_def blank_page_def idle_popup_def)
  have l': "responseListener idle_popup_page = Some response_x"
    using f by (simp add: responseListener_def idle_popup_page_def)
  have "snd (await_signal idle_popup_page) =
          Inr (map_option NetworkResponse (responseListener idle_popup_page))"
    using fallback [of idle_popup_page idle_popup 0]
    by (simp add: idle_popup_page_def third_only_def blank_page_def idle_popup_def)
  with l' have 8: "snd (await_signal idle_popup_page) = Inr (Some (NetworkResponse response_x))"
    by simp
  have 9: "is_file_response response_x"
    using listened [of idle_popup_page response_x] l' by blast
  have 10: "responseListener closed_popup_page = Some response_x"
    using f by (simp add: responseListener_def closed_popup_page_def)
  have cc: "snd (search_and_click closed_popup_page) = Inr ()"
    by (simp add: search_and_click_def closed_popup_page_def third_only_def blank_page_def
          candidates_def)
  have "download_event closed_popup_page = None \<and>
        popup_event closed_popup_page = Some (idle_popup\<lparr>popup_control_count := Inl target_closed\<rparr>) \<and>
        popup_download (idle_popup\<lparr>popup_control_count := Inl target_closed\<rparr>) = None \<and>
        popup_control_count (idle_popup\<lparr>popup_control_count := Inl target_closed\<rparr>) =
          Inl target_closed"
    by (simp add: closed_popup_page_def third_only_def blank_page_def idle_popup_def)
  with rejected [of closed_popup_page "idle_popup\<lparr>popup_control_count := Inl target_closed\<rparr>"
                   target_closed] cc
  have 11: "await_signal closed_popup_page = ([], Inl target_closed)"
    and 12: "snd (clickImmediateDownload closed_popup_page) = Inl target_closed"
    by blast+
  have "\<exists>sig. snd (await_signal native_page) = Inr (Some sig)"
    using some [of native_page] by (simp add: native_page_def)
  moreover have "snd (search_and_click native_page) = Inr ()"
    by (simp add: search_and_click_def native_page_def third_only_def blank_page_def
          candidates_def)
  ultimately have 13:
    "snd (clickImmediateDownload native_page) = Inr (Some (NativeDownload download_y))"
    using clicked [of native_page] 5 by simp
  from 1 4 5 6 7 8 9 10 11 12 13 show ?thesis by blast
qed

text \<open>
  The claim as written has a signal resolved whenever one of the three listeners fires.
  Here the popup listener fires, nothing downloads in the popup, it shows no download
  control and no response matches: line 190 returns \<^verbatim>\<open>null\<close>.
\<close>

theorem popup_without_download_counterexample:
  "popup_event (third_only\<lparr>popup_event := Some idle_popup\<rparr>) = Some idle_popup
   \<and> clickImmediateDownload (third_only\<lparr>popup_event := Some idle_popup\<rparr>) =
       ([Click ButtonWithLabel], Inr None)"
  by (simp add: clickImmediateDownload_def search_and_click_def await_signal_def and_then_def
        third_only_def blank_page_def idle_popup_def candidates_def responseListener_def)

section \<open>The shape of a request's trace\<close>

lemma and_then_all:
  "list_all P (fst m) \<Longrightarrow> (\<And>x. list_all P (fst (f x))) \<Longrightarrow> list_all P (fst (and_then m f))"
  by (cases m; cases "snd m") (auto simp: and_then_Inl and_then_Inr)

lemma call_unit_all: "P ef \<Longrightarrow> list_all P (fst (call_unit ef r))"
  by (simp add: call_unit_def)

lemma swallow_all: "list_all P (fst m) \<Longrightarrow> list_all P (fst (swallow m))"
  by (simp add: swallow_def)

lemma ret_all: "list_all P (fst (ret x))"
  by (simp add: ret_def)

lemma try_candidates_page: "list_all page_effect (fst (try_candidates a sels))"
  by (induction sels) (auto split: prod.splits)

lemma query_and_click_page: "list_all page_effect (fst (query_and_click a sels))"
  by (induction sels) (auto split: option.splits)

lemma search_and_click_page: "list_all page_effect (fst (search_and_click a))"
  by (simp add: search_and_click_trace try_candidates_page query_and_click_page)

lemma await_signal_page: "list_all page_effect (fst (await_signal a))"
  by (auto simp: await_signal_def split: option.splits sum.splits)

lemma await_signal_pageD: "await_signal a = (t, r) \<Longrightarrow> list_all page_effect t"
  using await_signal_page [of a] by simp

lemma clickImmediateDownload_page: "list_all page_effect (fst (clickImmediateDownload a))"
  unfolding clickImmediateDownload_def
  by (intro and_then_all search_and_click_page await_signal_page)

lemma download_loop_page: "list_all page_effect (fst (download_loop att i k))"
proof (induction k arbitrary: i)
  case 0
  then show ?case by simp
next
  case (Suc k)
  show ?case
    using clickImmediateDownload_page [of "att i"] Suc [of "Suc i"]
    by (auto split: prod.splits sum.splits option.splits)
qed

lemma materialize_page: "list_all page_effect (fst (materialize w tmpDir sig))"
  by (cases sig)
     (auto simp: materialize_download_def materialize_response_def Let_def throw_def
        intro!: and_then_all call_unit_all ret_all split: sum.splits)

lemma materialize_pageD: "materialize w tmpDir sig = (t, r) \<Longrightarrow> list_all page_effect t"
  using materialize_page [of w tmpDir sig] by simp

lemma download_loop_pageD: "download_loop att i k = (t, r) \<Longrightarrow> list_all page_effect t"
  using download_loop_page [of att i k] by simp

lemma authenticate_page: "list_all page_effect (fst (authenticate w u p))"
  unfolding authenticate_def
  by (intro and_then_all swallow_all call_unit_all) (auto intro!: swallow_all call_unit_all ret_all)

lemma request_body_page: "list_all page_effect (fst (request_body w tmpDir url u p))"
  unfolding request_body_def
  apply (intro and_then_all call_unit_all)
    apply simp
   apply (simp add: authenticate_page ret_all)
  apply (auto split: prod.splits option.splits dest: download_loop_pageD materialize_pageD)
  done

lemma authenticate_result:
  "snd (authenticate w u p) =
     (case fill_account_result w of
        Some e \<Rightarrow> Inl e
      | None \<Rightarrow> (case fill_password_result w of Some e \<Rightarrow> Inl e | None \<Rightarrow> Inr ()))"
  by (auto simp: authenticate_def and_then_def swallow_def call_unit_def ret_def
        split: option.splits)

lemma getSharedBrowser_cases:
  assumes "getSharedBrowser m l h s = (m', (t, r))"
  shows "(t = [] \<and> m' = m \<and> (\<exists>b. r = Inr b \<and> sharedBrowser m = Some b \<and> connected m b))
       \<or> (t = [Launch h s] \<and>
           (\<exists>b. l = Inr b \<and> r = Inr b \<and>
                m' = m\<lparr>sharedBrowser := Some b, connected := (connected m)(b := True)\<rparr>))
       \<or> (t = [Launch h s] \<and> (\<exists>e. l = Inl e \<and> r = Inl e \<and> m' = m))"
  using assms
  by (auto simp: getSharedBrowser_def launch_browser_def ret_def
        split: option.splits if_splits sum.splits)

lemma getSharedBrowser_running:
  assumes "getSharedBrowser m l h s = (m', (t, Inr b))"
  shows "sharedBrowser m' = Some b \<and> connected m' b"
  using getSharedBrowser_cases [OF assms] by auto

lemma getSharedBrowser_setup:
  assumes "getSharedBrowser m l h s = (m', (t, r))"
  shows "list_all setup_effect t" and "\<forall>ef\<in>set t. ef = Launch h s"
  using getSharedBrowser_cases [OF assms] by auto

lemma newContext_trace: "fst (newContext w k) = [NewContext (storage_argument w)]"
  by (simp add: newContext_def call_unit_def Let_def)

lemma newContext_corrupt:
  "state_file w = Corrupt \<Longrightarrow>
   newContext w k = ([NewContext (Some stateFile)], Inl (EngineError ''Error reading storage state''))"
  by (simp add: newContext_def call_unit_def storage_argument_def)

lemma newContext_missing:
  "state_file w = Missing \<Longrightarrow>
   newContext w k =
     ([NewContext None], case context_result w k of None \<Rightarrow> Inr () | Some e \<Rightarrow> Inl e)"
  by (simp add: newContext_def call_unit_def storage_argument_def)

lemma openContextWithRetry_cases:
  assumes "openContextWithRetry w m b h s = (m', (t, r))"
  shows "(snd (newContext w 0) = Inr () \<and> m' = m \<and>
          t = [NewContext (storage_argument w), NewPage] \<and>
          r = (case page_result w of None \<Rightarrow> Inr () | Some e \<Rightarrow> Inl e))
       \<or> (\<exists>e0 t1 e. snd (newContext w 0) = Inl e0 \<and>
             getSharedBrowser (if crash_before_retry w then on_disconnected b m else m)
               (launch_result w 1) h s = (m', (t1, Inl e)) \<and>
             t = NewContext (storage_argument w) # t1 \<and> r = Inl e)
       \<or> (\<exists>e0 t1 b' e. snd (newContext w 0) = Inl e0 \<and>
             getSharedBrowser (if crash_before_retry w then on_disconnected b m else m)
               (launch_result w 1) h s = (m', (t1, Inr b')) \<and>
             snd (newContext w 1) = Inl e \<and>
             t = NewContext (storage_argument w) # t1 @ [NewContext (storage_argument w)] \<and>
             r = Inl e)
       \<or> (\<exists>e0 t1 b'. snd (newContext w 0) = Inl e0 \<and>
             getSharedBrowser (if crash_before_retry w then on_disconnected b m else m)
               (launch_result w 1) h s = (m', (t1, Inr b')) \<and>
             snd (newContext w 1) = Inr () \<and>
             t = NewContext (storage_argument w) # t1 @ [NewContext (storage_argument w), NewPage] \<and>
             r = (case page_result w of None \<Rightarrow> Inr () | Some e \<Rightarrow> Inl e))"
proof (cases "snd (newContext w 0)")
  case (Inr u)
  then have "newContext w 0 = ([NewContext (storage_argument w)], Inr ())"
    using newContext_trace [of w 0] by (cases "newContext w 0") auto
  with assms show ?thesis
    by (auto simp: openContextWithRetry_def and_then_def call_unit_def split: option.splits)
next
  case (Inl e0)
  then have n0: "newContext w 0 = ([NewContext (storage_argument w)], Inl e0)"
    using newContext_trace [of w 0] by (cases "newContext w 0") auto
  let ?m = "if crash_before_retry w then on_disconnected b m else m"
  obtain m1 t1 r1 where g: "getSharedBrowser ?m (launch_result w 1) h s = (m1, (t1, r1))"
    by (metis prod_cases3)
  show ?thesis
  proof (cases r1)
    case (Inl e)
    with assms n0 g Inl show ?thesis
      by (auto simp: openContextWithRetry_def Let_def)
  next
    case (Inr b')
    obtain r2 where n1: "newContext w 1 = ([NewContext (storage_argument w)], r2)"
      using newContext_trace [of w 1] by (cases "newContext w 1") auto
    show ?thesis
    proof (cases r2)
      case (Inl e)
      with assms n0 g Inr n1 \<open>snd (newContext w 0) = Inl e0\<close> show ?thesis
        by (auto simp: openContextWithRetry_def Let_def and_then_def)
    next
      case r2: (Inr u)
      with assms n0 g Inr n1 \<open>snd (newContext w 0) = Inl e0\<close> show ?thesis
        by (auto simp: openContextWithRetry_def Let_def and_then_def call_unit_def
              split: option.splits)
    qed
  qed
qed

lemma openContextWithRetry_props:
  assumes "openContextWithRetry w m b h s = (m', (t, r))"
  shows "list_all setup_effect t"
    and "\<forall>h' s'. Launch h' s' \<in> set t \<longrightarrow> h' = h \<and> s' = s"
    and "\<forall>arg. NewContext arg \<in> set t \<longrightarrow> arg = storage_argument w"
    and "r = Inr () \<longleftrightarrow> NewPage \<in> set t \<and> page_result w = None"
    and "NewPage \<in> set t \<longrightarrow> state_file w \<noteq> Corrupt"
    and "sharedBrowser m = Some b \<and> connected m b \<and> r = Inr () \<longrightarrow>
           (\<exists>b'. sharedBrowser m' = Some b' \<and> connected m' b')"
proof -
  note c = openContextWithRetry_cases [OF assms]
  show "list_all setup_effect t"
    using c by (auto dest!: getSharedBrowser_setup(1))
  show "\<forall>h' s'. Launch h' s' \<in> set t \<longrightarrow> h' = h \<and> s' = s"
    using c by (auto dest!: getSharedBrowser_setup(2))
  show "\<forall>arg. NewContext arg \<in> set t \<longrightarrow> arg = storage_argument w"
    using c by (auto dest!: getSharedBrowser_setup(2))
  show "r = Inr () \<longleftrightarrow> NewPage \<in> set t \<and> page_result w = None"
    using c by (auto dest!: getSharedBrowser_setup(2) split: option.splits)
  show "NewPage \<in> set t \<longrightarrow> state_file w \<noteq> Corrupt"
    using c by (auto dest!: getSharedBrowser_setup(2) simp: newContext_corrupt)
  show "sharedBrowser m = Some b \<and> connected m b \<and> r = Inr () \<longrightarrow>
           (\<exists>b'. sharedBrowser m' = Some b' \<and> connected m' b')"
    using c by (auto dest!: getSharedBrowser_running split: option.splits)
qed

lemma try_finally_request:
  "try_finally body (close_context w) = (fst body @ [CloseContext], snd body)"
  by (simp add: try_finally_def close_context_def swallow_def call_unit_def)

lemma acquire_cases:
  assumes "acquire w m url opts u p = (m', (t, r))"
  shows "(\<exists>e. mkdtemp_result w = Inl e \<and> t = [MkdTemp] \<and> r = Inl e \<and> m' = m)
       \<or> (\<exists>tmpDir t1 e. mkdtemp_result w = Inr tmpDir \<and>
             getSharedBrowser m (launch_result w 0) (headless_flag w opts) (slowMo_value opts) =
               (m', (t1, Inl e)) \<and>
             t = MkdTemp # t1 \<and> r = Inl e)
       \<or> (\<exists>tmpDir m1 t1 b t2 e. mkdtemp_result w = Inr tmpDir \<and>
             getSharedBrowser m (launch_result w 0) (headless_flag w opts) (slowMo_value opts) =
               (m1, (t1, Inr b)) \<and>
             openContextWithRetry w m1 b (headless_flag w opts) (slowMo_value opts) =
               (m', (t2, Inl e)) \<and>
             t = MkdTemp # t1 @ t2 \<and> r = Inl e)
       \<or> (\<exists>tmpDir m1 t1 b t2. mkdtemp_result w = Inr tmpDir \<and>
             getSharedBrowser m (launch_result w 0) (headless_flag w opts) (slowMo_value opts) =
               (m1, (t1, Inr b)) \<and>
             openContextWithRetry w m1 b (headless_flag w opts) (slowMo_value opts) =
               (m', (t2, Inr ())) \<and>
             t = MkdTemp # t1 @ t2 @ fst (request_body w tmpDir url u p) @ [CloseContext] \<and>
             r = snd (request_body w tmpDir url u p))"
proof (cases "mkdtemp_result w")
  case (Inl e)
  with assms show ?thesis by (auto simp: acquire_def)
next
  case (Inr tmpDir)
  obtain m1 t1 r1 where g:
    "getSharedBrowser m (launch_result w 0) (headless_flag w opts) (slowMo_value opts) = (m1, (t1, r1))"
    by (metis prod_cases3)
  show ?thesis
  proof (cases r1)
    case (Inl e)
    with assms Inr g show ?thesis by (auto simp: acquire_def Let_def)
  next
    case b: (Inr b)
    obtain m2 t2 r2 where oc:
      "openContextWithRetry w m1 b (headless_flag w opts) (slowMo_value opts) = (m2, (t2, r2))"
      by (metis prod_cases3)
    show ?thesis
    proof (cases r2)
      case (Inl e)
      with assms Inr g b oc show ?thesis by (auto simp: acquire_def Let_def)
    next
      case u: (Inr x)
      with assms Inr g b oc show ?thesis
        by (auto simp: acquire_def Let_def and_then_def try_finally_request)
    qed
  qed
qed

lemma getSharedBrowser_pre:
  assumes "getSharedBrowser m l h s = (m', (t, r))"
  shows "list_all setup_effect t \<and> (\<forall>h' s'. Launch h' s' \<in> set t \<longrightarrow> h' = h \<and> s' = s) \<and>
         (\<forall>arg. NewContext arg \<notin> set t) \<and> NewPage \<notin> set t"
  using getSharedBrowser_cases [OF assms] by auto

lemma setup_shape_Cons: "setup_shape w opts pre \<Longrightarrow> setup_shape w opts (MkdTemp # pre)"
  by (simp add: setup_shape_def)

lemma setup_shape_gsb:
  "getSharedBrowser m l (headless_flag w opts) (slowMo_value opts) = (m', (t, r)) \<Longrightarrow>
   setup_shape w opts t"
  using getSharedBrowser_pre [of m l "headless_flag w opts" "slowMo_value opts" m' t r]
  by (simp add: setup_shape_def)

lemma setup_shape_open:
  "openContextWithRetry w m b (headless_flag w opts) (slowMo_value opts) = (m', (t, r)) \<Longrightarrow>
   setup_shape w opts t"
  using openContextWithRetry_props(1,2,3,5)
          [of w m b "headless_flag w opts" "slowMo_value opts" m' t r]
  by (simp add: setup_shape_def)

lemma setup_shape_append:
  "setup_shape w opts t1 \<Longrightarrow> setup_shape w opts t2 \<Longrightarrow> setup_shape w opts (t1 @ t2)"
  by (auto simp: setup_shape_def)

lemma acquire_shape:
  assumes "acquire w m url opts u p = (m', (t, r))"
  shows "\<exists>pre post. t = pre @ post \<and> setup_shape w opts pre \<and>
           ((post = [] \<and> (\<exists>e. r = Inl e) \<and> \<not> (NewPage \<in> set pre \<and> page_result w = None)) \<or>
            (NewPage \<in> set pre \<and> page_result w = None \<and>
             (\<exists>tmpDir. mkdtemp_result w = Inr tmpDir \<and>
                post = fst (request_body w tmpDir url u p) @ [CloseContext] \<and>
                r = snd (request_body w tmpDir url u p)) \<and>
             (\<exists>b. sharedBrowser m' = Some b \<and> connected m' b)))"
proof -
  let ?h = "headless_flag w opts" and ?s = "slowMo_value opts"
  consider
    (tmp) e where "mkdtemp_result w = Inl e" "t = [MkdTemp]" "r = Inl e"
  | (launch) t1 e where
      "getSharedBrowser m (launch_result w 0) ?h ?s = (m', (t1, Inl e))"
      "t = MkdTemp # t1" "r = Inl e"
  | (ctx) m1 t1 b t2 e where
      "getSharedBrowser m (launch_result w 0) ?h ?s = (m1, (t1, Inr b))"
      "openContextWithRetry w m1 b ?h ?s = (m', (t2, Inl e))"
      "t = MkdTemp # t1 @ t2" "r = Inl e"
  | (body) tmpDir m1 t1 b t2 where "mkdtemp_result w = Inr tmpDir"
      "getSharedBrowser m (launch_result w 0) ?h ?s = (m1, (t1, Inr b))"
      "openContextWithRetry w m1 b ?h ?s = (m', (t2, Inr ()))"
      "t = MkdTemp # t1 @ t2 @ fst (request_body w tmpDir url u p) @ [CloseContext]"
      "r = snd (request_body w tmpDir url u p)"
    using acquire_cases [OF assms] by blast
  then show ?thesis
  proof cases
    case tmp
    have "setup_shape w opts [MkdTemp]" by (simp add: setup_shape_def)
    with tmp show ?thesis by (intro exI [of _ "[MkdTemp]"] exI [of _ "[]"]) simp
  next
    case launch
    have sh: "setup_shape w opts (MkdTemp # t1)"
      using setup_shape_gsb [OF launch(1)] by (rule setup_shape_Cons)
    have "NewPage \<notin> set (MkdTemp # t1)"
      using getSharedBrowser_pre [OF launch(1)] by simp
    with launch sh show ?thesis by (intro exI [of _ "MkdTemp # t1"] exI [of _ "[]"]) simp
  next
    case ctx
    have sh: "setup_shape w opts (MkdTemp # t1 @ t2)"
      using setup_shape_gsb [OF ctx(1)] setup_shape_open [OF ctx(2)]
      by (intro setup_shape_Cons setup_shape_append)
    have "\<not> (NewPage \<in> set t2 \<and> page_result w = None)"
      using openContextWithRetry_props(4) [OF ctx(2)] by simp
    moreover have "NewPage \<notin> set t1" using getSharedBrowser_pre [OF ctx(1)] by simp
    ultimately have "\<not> (NewPage \<in> set (MkdTemp # t1 @ t2) \<and> page_result w = None)" by simp
    with ctx sh show ?thesis by (intro exI [of _ "MkdTemp # t1 @ t2"] exI [of _ "[]"]) simp
  next
    case body
    have sh: "setup_shape w opts (MkdTemp # t1 @ t2)"
      using setup_shape_gsb [OF body(2)] setup_shape_open [OF body(3)]
      by (intro setup_shape_Cons setup_shape_append)
    have np: "NewPage \<in> set t2 \<and> page_result w = None"
      using openContextWithRetry_props(4) [OF body(3)] by simp
    have run: "\<exists>b'. sharedBrowser m' = Some b' \<and> connected m' b'"
      using getSharedBrowser_running [OF body(2)] openContextWithRetry_props(6) [OF body(3)]
      by simp
    show ?thesis
      using body(1,4,5) sh np run
      by (intro exI [of _ "MkdTemp # t1 @ t2"]
            exI [of _ "fst (request_body w tmpDir url u p) @ [CloseContext]"]) simp
  qed
qed

lemma page_effect_memD: "list_all page_effect t \<Longrightarrow> ef \<in> set t \<Longrightarrow> page_effect ef"
  by (simp add: list_all_iff)

lemma setup_effect_memD: "list_all setup_effect t \<Longrightarrow> ef \<in> set t \<Longrightarrow> setup_effect ef"
  by (simp add: list_all_iff)

lemma acquire_props:
  assumes "acquire w m url opts u p = (m', (t, r))"
  shows "\<forall>h s. Launch h s \<in> set t \<longrightarrow> h = headless_flag w opts \<and> s = slowMo_value opts"
    and "\<forall>arg. NewContext arg \<in> set t \<longrightarrow> arg = storage_argument w"
    and "CloseBrowser \<notin> set t" and "\<forall>d. RemoveDir d \<notin> set t"
    and "NewPage \<in> set t \<and> page_result w = None \<longrightarrow>
           (\<exists>t0. t = t0 @ [CloseContext] \<and> CloseContext \<notin> set t0) \<and>
           (\<exists>b. sharedBrowser m' = Some b \<and> connected m' b)"
    and "NewPage \<in> set t \<longrightarrow> state_file w \<noteq> Corrupt"
    and "\<forall>art. r = Inr art \<longrightarrow> NewPage \<in> set t \<and> page_result w = None"
    and "CloseContext \<in> set t \<longrightarrow> NewPage \<in> set t \<and> page_result w = None"
proof -
  obtain pre post where t: "t = pre @ post" and sh: "setup_shape w opts pre"
    and alt: "(post = [] \<and> (\<exists>e. r = Inl e) \<and> \<not> (NewPage \<in> set pre \<and> page_result w = None)) \<or>
            (NewPage \<in> set pre \<and> page_result w = None \<and>
             (\<exists>tmpDir. mkdtemp_result w = Inr tmpDir \<and>
                post = fst (request_body w tmpDir url u p) @ [CloseContext] \<and>
                r = snd (request_body w tmpDir url u p)) \<and>
             (\<exists>b. sharedBrowser m' = Some b \<and> connected m' b))"
    using acquire_shape [OF assms] by blast
  have pre: "\<And>ef. ef \<in> set pre \<Longrightarrow> setup_effect ef"
    using sh by (auto simp: setup_shape_def dest: setup_effect_memD)
  have body: "\<And>tmpDir ef. ef \<in> set (fst (request_body w tmpDir url u p)) \<Longrightarrow> page_effect ef"
    by (rule page_effect_memD [OF request_body_page])
  have post: "\<And>ef. ef \<in> set post \<Longrightarrow> page_effect ef \<or> ef = CloseContext"
    using alt body by auto
  show "\<forall>h s. Launch h s \<in> set t \<longrightarrow> h = headless_flag w opts \<and> s = slowMo_value opts"
    using t sh post by (fastforce simp: setup_shape_def)
  show "\<forall>arg. NewContext arg \<in> set t \<longrightarrow> arg = storage_argument w"
    using t sh post by (fastforce simp: setup_shape_def)
  show "CloseBrowser \<notin> set t" using t pre post by fastforce
  show "\<forall>d. RemoveDir d \<notin> set t" using t pre post by fastforce
  have np: "NewPage \<in> set t \<longleftrightarrow> NewPage \<in> set pre" using t post by fastforce
  show "NewPage \<in> set t \<longrightarrow> state_file w \<noteq> Corrupt"
    using np sh by (simp add: setup_shape_def)
  show "\<forall>art. r = Inr art \<longrightarrow> NewPage \<in> set t \<and> page_result w = None"
    using np alt by auto
  have ncc: "CloseContext \<notin> set pre" using pre by fastforce
  show "CloseContext \<in> set t \<longrightarrow> NewPage \<in> set t \<and> page_result w = None"
    using np alt t ncc by auto
  show "NewPage \<in> set t \<and> page_result w = None \<longrightarrow>
           (\<exists>t0. t = t0 @ [CloseContext] \<and> CloseContext \<notin> set t0) \<and>
           (\<exists>b. sharedBrowser m' = Some b \<and> connected m' b)"
  proof
    assume "NewPage \<in> set t \<and> page_result w = None"
    with np alt obtain tmpDir where
      p: "post = fst (request_body w tmpDir url u p) @ [CloseContext]"
      and run: "\<exists>b. sharedBrowser m' = Some b \<and> connected m' b"
      by auto
    have "CloseContext \<notin> set (fst (request_body w tmpDir url u p))"
      using body [of CloseContext tmpDir] by auto
    with ncc have "CloseContext \<notin> set (pre @ fst (request_body w tmpDir url u p))" by simp
    with t p run show "(\<exists>t0. t = t0 @ [CloseContext] \<and> CloseContext \<notin> set t0) \<and>
           (\<exists>b. sharedBrowser m' = Some b \<and> connected m' b)"
      by (intro conjI exI [of _ "pre @ fst (request_body w tmpDir url u p)"]) simp_all
  qed
qed

lemma downloadAipptTemplate_cases:
  "downloadAipptTemplate w m url opts = (m, ([], Inl (Error ''Invalid template URL'')))
   \<or> downloadAipptTemplate w m url opts =
        (m, ([], Inl (Error ''Missing AIPPT_USERNAME/AIPPT_PASSWORD'')))
   \<or> (\<exists>u p. env_username w = Some u \<and> env_password w = Some p \<and> u \<noteq> [] \<and> p \<noteq> [] \<and> url_ok url \<and>
         downloadAipptTemplate w m url opts = acquire w m url opts u p)"
  by (auto simp: downloadAipptTemplate_def throw_def split: option.splits)

lemma request_props:
  fixes w m url opts
  defines "R \<equiv> downloadAipptTemplate w m url opts"
  shows "\<forall>h s. Launch h s \<in> set (trace_of R) \<longrightarrow> h = headless_flag w opts \<and> s = slowMo_value opts"
    and "\<forall>arg. NewContext arg \<in> set (trace_of R) \<longrightarrow> arg = storage_argument w"
    and "CloseBrowser \<notin> set (trace_of R)" and "\<forall>d. RemoveDir d \<notin> set (trace_of R)"
    and "NewPage \<in> set (trace_of R) \<and> page_result w = None \<longrightarrow>
           (\<exists>t0. trace_of R = t0 @ [CloseContext] \<and> CloseContext \<notin> set t0) \<and>
           (\<exists>b. sharedBrowser (fst R) = Some b \<and> connected (fst R) b)"
    and "NewPage \<in> set (trace_of R) \<longrightarrow> state_file w \<noteq> Corrupt"
    and "\<forall>art. outcome_of R = Inr art \<longrightarrow> NewPage \<in> set (trace_of R) \<and> page_result w = None"
    and "CloseContext \<in> set (trace_of R) \<longrightarrow> NewPage \<in> set (trace_of R) \<and> page_result w = None"
proof -
  consider (config) "trace_of R = []" "\<exists>e. outcome_of R = Inl e"
    | (run) u p where "R = acquire w m url opts u p"
    using downloadAipptTemplate_cases [of w m url opts]
    unfolding R_def trace_of_def outcome_of_def by fastforce
  then have
    "(\<forall>h s. Launch h s \<in> set (trace_of R) \<longrightarrow> h = headless_flag w opts \<and> s = slowMo_value opts) \<and>
     (\<forall>arg. NewContext arg \<in> set (trace_of R) \<longrightarrow> arg = storage_argument w) \<and>
     CloseBrowser \<notin> set (trace_of R) \<and> (\<forall>d. RemoveDir d \<notin> set (trace_of R)) \<and>
     (NewPage \<in> set (trace_of R) \<and> page_result w = None \<longrightarrow>
           (\<exists>t0. trace_of R = t0 @ [CloseContext] \<and> CloseContext \<notin> set t0) \<and>
           (\<exists>b. sharedBrowser (fst R) = Some b \<and> connected (fst R) b)) \<and>
     (NewPage \<in> set (trace_of R) \<longrightarrow> state_file w \<noteq> Corrupt) \<and>
     (\<forall>art. outcome_of R = Inr art \<longrightarrow> NewPage \<in> set (trace_of R) \<and> page_result w = None) \<and>
     (CloseContext \<in> set (trace_of R) \<longrightarrow> NewPage \<in> set (trace_of R) \<and> page_result w = None)"
  proof cases
    case config
    then show ?thesis by auto
  next
    case (run u p)
    obtain m' t r where a: "acquire w m url opts u p = (m', (t, r))" by (metis prod_cases3)
    have R: "trace_of R = t" "outcome_of R = r" "fst R = m'"
      using run a by (simp_all add: trace_of_def outcome_of_def)
    show ?thesis
      unfolding R
      using acquire_props [OF a] by (intro conjI) assumption+
  qed
  then show "\<forall>h s. Launch h s \<in> set (trace_of R) \<longrightarrow> h = headless_flag w opts \<and> s = slowMo_value opts"
    and "\<forall>arg. NewContext arg \<in> set (trace_of R) \<longrightarrow> arg = storage_argument w"
    and "CloseBrowser \<notin> set (trace_of R)" and "\<forall>d. RemoveDir d \<notin> set (trace_of R)"
    and "NewPage \<in> set (trace_of R) \<and> page_result w = None \<longrightarrow>
           (\<exists>t0. trace_of R = t0 @ [CloseContext] \<and> CloseContext \<notin> set t0) \<and>
           (\<exists>b. sharedBrowser (fst R) = Some b \<and> connected (fst R) b)"
    and "NewPage \<in> set (trace_of R) \<longrightarrow> state_file w \<noteq> Corrupt"
    and "\<forall>art. outcome_of R = Inr art \<longrightarrow> NewPage \<in> set (trace_of R) \<and> page_result w = None"
    and "CloseContext \<in> set (trace_of R) \<longrightarrow> NewPage \<in> set (trace_of R) \<and> page_result w = None"
    by blast+
qed

section \<open>The headless flag\<close>















section \<open>Closing the context\<close>

lemma materialize_close_irrelevant [simp]:
  "materialize (w\<lparr>close_context_result := c\<rparr>) tmpDir sig = materialize w tmpDir sig"
  by (cases sig) (simp_all add: materialize_response_def cong: sum.case_cong)

lemma request_body_close_irrelevant:
  "request_body (w\<lparr>close_context_result := c\<rparr>) tmpDir url u p = request_body w tmpDir url u p"
  by (simp add: request_body_def login_required_def authenticate_def
        cong: prod.case_cong option.case_cong)

lemma headless_close_irrelevant:
  "headless_flag (w\<lparr>close_context_result := c\<rparr>) opts = headless_flag w opts"
  by (simp add: headless_flag_def cong: option.case_cong)

lemma newContext_close_irrelevant:
  "newContext (w\<lparr>close_context_result := c\<rparr>) k = newContext w k"
  by (simp add: newContext_def storage_argument_def)

lemma openContext_close_irrelevant:
  "openContextWithRetry (w\<lparr>close_context_result := c\<rparr>) m b h s =
   openContextWithRetry w m b h s"
  by (simp add: openContextWithRetry_def newContext_close_irrelevant Let_def
        cong: prod.case_cong sum.case_cong)

lemma acquire_close_irrelevant:
  "acquire (w\<lparr>close_context_result := c\<rparr>) m url opts u p = acquire w m url opts u p"
  by (simp add: acquire_def headless_close_irrelevant openContext_close_irrelevant
        request_body_close_irrelevant try_finally_request Let_def
        cong: prod.case_cong sum.case_cong)

lemma close_irrelevant:
  "downloadAipptTemplate (w\<lparr>close_context_result := c\<rparr>) m url opts =
   downloadAipptTemplate w m url opts"
  by (simp add: downloadAipptTemplate_def acquire_close_irrelevant split: option.splits)

text \<open>
  Claim C6, as the code has it. From the moment the context and its page exist, every
  way out of the request, with an artifact or with an error (the download that never
  starts included), passes through line 263: the trace ends with the one
  \<^verbatim>\<open>context.close()\<close> of the request, whose rejection is swallowed (neither the outcome
  nor the trace depends on it), and the shared browser is still the manager's, connected.
  No path closes the browser. No path of the request removes the temporary directory:
  line 46 creates it and only the release action of a returned artifact removes it.
\<close>

theorem context_closed_once_open:
  "(NewPage \<in> set (trace_of (downloadAipptTemplate w m url opts)) \<and> page_result w = None \<longrightarrow>
      (\<exists>t0. trace_of (downloadAipptTemplate w m url opts) = t0 @ [CloseContext] \<and>
            CloseContext \<notin> set t0) \<and>
      (\<exists>b. sharedBrowser (fst (downloadAipptTemplate w m url opts)) = Some b \<and>
           connected (fst (downloadAipptTemplate w m url opts)) b))
   \<and> (outcome_of (downloadAipptTemplate w m url opts) = Inr art \<longrightarrow>
        NewPage \<in> set (trace_of (downloadAipptTemplate w m url opts)) \<and> page_result w = None)
   \<and> downloadAipptTemplate (w\<lparr>close_context_result := c\<rparr>) m url opts =
       downloadAipptTemplate w m url opts
   \<and> CloseBrowser \<notin> set (trace_of (downloadAipptTemplate w m url opts))
   \<and> RemoveDir d \<notin> set (trace_of (downloadAipptTemplate w m url opts))"
  using request_props(3,4,5,7) [of w m url opts] close_irrelevant [of c w m url opts]
  by (intro conjI) blast+

text \<open>A run that returns an artifact and a run in which no download starts.\<close>

theorem context_closed_once_open_witness:
  "snd (downloadAipptTemplate plain_world no_browser template_url no_options) =
     ([MkdTemp, Launch True 0, NewContext None, NewPage, Goto template_url,
       Click ButtonWithLabel, WriteFile ''/tmp/aippt-AbC123/x.pptx''] @ [CloseContext],
      Inr artifact_x)
   \<and> snd (downloadAipptTemplate (plain_world\<lparr>attempts := (\<lambda>_. blank_page)\<rparr>) no_browser
         template_url no_options) =
     ([MkdTemp, Launch True 0, NewContext None, NewPage, Goto template_url] @ [CloseContext],
      Inl (Error download_not_started))
   \<and> (\<exists>t0. trace_of (downloadAipptTemplate (plain_world\<lparr>attempts := (\<lambda>_. blank_page)\<rparr>)
                no_browser template_url no_options) = t0 @ [CloseContext] \<and>
            CloseContext \<notin> set t0)
   \<and> sharedBrowser (fst (downloadAipptTemplate plain_world no_browser template_url no_options)) \<noteq> None
   \<and> NewPage \<in> set (trace_of (downloadAipptTemplate plain_world no_browser template_url no_options))"
proof -
  note closed = context_closed_once_open [THEN conjunct1]
  note success = context_closed_once_open [THEN conjunct2, THEN conjunct1]
  let ?w = "plain_world\<lparr>attempts := (\<lambda>_. blank_page)\<rparr>"
  have 1: "snd (downloadAipptTemplate plain_world no_browser template_url no_options) =
     ([MkdTemp, Launch True 0, NewContext None, NewPage, Goto template_url,
       Click ButtonWithLabel, WriteFile ''/tmp/aippt-AbC123/x.pptx''] @ [CloseContext],
      Inr artifact_x)"
    by code_simp
  have 2: "snd (downloadAipptTemplate ?w no_browser template_url no_options) =
     ([MkdTemp, Launch True 0, NewContext None, NewPage, Goto template_url] @ [CloseContext],
      Inl (Error download_not_started))"
    by code_simp
  have "NewPage \<in> set (trace_of (downloadAipptTemplate ?w no_browser template_url no_options))"
    by (simp add: trace_of_def 2)
  moreover have "page_result ?w = None" by (simp add: plain_world_def)
  ultimately have 3: "\<exists>t0. trace_of (downloadAipptTemplate ?w no_browser template_url no_options) =
      t0 @ [CloseContext] \<and> CloseContext \<notin> set t0"
    using closed [of ?w no_browser template_url no_options] by blast
  have "outcome_of (downloadAipptTemplate plain_world no_browser template_url no_options) =
        Inr artifact_x"
    by (simp add: outcome_of_def 1)
  with success [of plain_world no_browser template_url no_options artifact_x]
  have 5: "NewPage \<in> set (trace_of (downloadAipptTemplate plain_world no_browser template_url no_options))"
    and p: "page_result plain_world = None"
    by blast+
  with closed [of plain_world no_browser template_url no_options]
  have 4: "sharedBrowser (fst (downloadAipptTemplate plain_world no_browser template_url no_options)) \<noteq> None"
    by auto
  from 1 2 3 4 5 show ?thesis by blast
qed

text \<open>
  The claim as written has the context closed on the path where creating the page fails,
  and the temporary directory removed as a final step. When \<^verbatim>\<open>context.newPage()\<close>
  rejects (line 65, outside the \<^verbatim>\<open>try\<close>), the context made on line 59 is not closed; and
  the run in which no download starts ends without removing the directory of line 46.
\<close>

theorem context_left_open_counterexample:
  "snd (downloadAipptTemplate (plain_world\<lparr>page_result := Some (EngineError ''Target closed'')\<rparr>)
         no_browser template_url no_options) =
     ([MkdTemp, Launch True 0, NewContext None, NewPage], Inl (EngineError ''Target closed''))
   \<and> snd (downloadAipptTemplate (plain_world\<lparr>attempts := (\<lambda>_. blank_page)\<rparr>) no_browser
         template_url no_options) =
     ([MkdTemp, Launch True 0, NewContext None, NewPage, Goto template_url, CloseContext],
      Inl (Error download_not_started))"
  by code_simp

section \<open>The login form\<close>

lemma authenticate_clicks_irrelevant:
  "authenticate (w\<lparr>click_login_result := r1, click_switch_result := r2,
       click_submit_span_result := r3, click_submit_result := r4\<rparr>) u p =
   authenticate w u p"
  by (simp add: authenticate_def swallow_def call_unit_def)

lemma request_body_auth_failure:
  assumes "goto_result w = None" "login_required w" "snd (authenticate w u p) = Inl e"
  shows "snd (request_body w tmpDir url u p) = Inl e"
proof -
  have "and_then (authenticate w u p) f = (fst (authenticate w u p), Inl e)" for f :: "unit \<Rightarrow> artifact act"
    using assms(3) by (rule and_then_Inl)
  then show ?thesis
    using assms(1,2) by (simp add: request_body_def and_then_def call_unit_def)
qed

text \<open>
  Claim C7, as the code has it. In the login branch every click (the login/register
  entry, the switch to password login, the labelled submit button or the plain one) and
  the saving of the storage state are best-effort: whatever they answer, the protocol
  leaves the same trace and the same outcome. The protocol fails exactly when filling
  the account field or, after it, the password field fails, with that error; this
  failure ends the request. A submit control that cannot be found or clicked fails
  nothing.
\<close>

theorem authentication_fails_on_fill_only:
  "(snd (authenticate w u p) = Inl e \<longleftrightarrow>
      fill_account_result w = Some e \<or>
      (fill_account_result w = None \<and> fill_password_result w = Some e))
   \<and> authenticate (w\<lparr>click_login_result := r1, click_switch_result := r2,
         click_submit_span_result := r3, click_submit_result := r4\<rparr>) u p =
       authenticate w u p
   \<and> snd (authenticate (w\<lparr>save_state_result := r5\<rparr>) u p) = snd (authenticate w u p)
   \<and> (goto_result w = None \<and> login_required w \<and> snd (authenticate w u p) = Inl e \<longrightarrow>
        snd (request_body w tmpDir url u p) = Inl e)"
proof (intro conjI impI)
  show "snd (authenticate w u p) = Inl e \<longleftrightarrow>
      fill_account_result w = Some e \<or>
      (fill_account_result w = None \<and> fill_password_result w = Some e)"
    unfolding authenticate_result by (auto split: option.splits)
  show "authenticate (w\<lparr>click_login_result := r1, click_switch_result := r2,
         click_submit_span_result := r3, click_submit_result := r4\<rparr>) u p =
       authenticate w u p"
    by (rule authenticate_clicks_irrelevant)
  show "snd (authenticate (w\<lparr>save_state_result := r5\<rparr>) u p) = snd (authenticate w u p)"
    by (simp add: authenticate_result cong: option.case_cong)
next
  assume "goto_result w = None \<and> login_required w \<and> snd (authenticate w u p) = Inl e"
  then show "snd (request_body w tmpDir url u p) = Inl e"
    by (intro request_body_auth_failure) auto
qed

text \<open>A page that asks for a login and has no password field: the request fails with
  the error of line 214.\<close>

theorem authentication_fails_on_fill_only_witness:
  "snd (authenticate (login_world\<lparr>fill_password_result := Some (EngineError ''Timeout 15000ms exceeded'')\<rparr>)
          ''user'' ''secret'') = Inl (EngineError ''Timeout 15000ms exceeded'')
   \<and> snd (request_body (login_world\<lparr>fill_password_result := Some (EngineError ''Timeout 15000ms exceeded'')\<rparr>)
            ''/tmp/aippt-AbC123'' template_url ''user'' ''secret'') =
       Inl (EngineError ''Timeout 15000ms exceeded'')"
proof -
  note fails = authentication_fails_on_fill_only [THEN conjunct1]
  note fatal = authentication_fails_on_fill_only [THEN conjunct2, THEN conjunct2, THEN conjunct2]
  let ?w = "login_world\<lparr>fill_password_result := Some (EngineError ''Timeout 15000ms exceeded'')\<rparr>"
  have f: "fill_account_result ?w = None \<and>
           fill_password_result ?w = Some (EngineError ''Timeout 15000ms exceeded'')"
    by (simp add: login_world_def plain_world_def)
  have 1: "snd (authenticate ?w ''user'' ''secret'') = Inl (EngineError ''Timeout 15000ms exceeded'')"
    using fails [of ?w "''user''" "''secret''" "EngineError ''Timeout 15000ms exceeded''"] f by blast
  have g: "goto_result ?w = None \<and> login_required ?w"
    by (simp add: login_world_def plain_world_def login_required_def)
  have 2: "snd (request_body ?w ''/tmp/aippt-AbC123'' template_url ''user'' ''secret'') =
       Inl (EngineError ''Timeout 15000ms exceeded'')"
    using fatal [of ?w "''user''" "''secret''" "EngineError ''Timeout 15000ms exceeded''"
                    "''/tmp/aippt-AbC123''" template_url] g 1 by blast
  from 1 2 show ?thesis by blast
qed

text \<open>
  The claim as written has the protocol fail when no submit control can be located or
  its click cannot be recovered. In \<open>login_world\<close> the labelled submit button is
  missing and the click on the plain one times out; line 220 swallows it, the protocol
  ends normally and the request goes on to return the artifact.
\<close>

theorem missing_submit_is_not_fatal_counterexample:
  "submit_span_count login_world = 0
   \<and> click_submit_result login_world = Some (EngineError ''Timeout 10000ms exceeded'')
   \<and> authenticate login_world ''user'' ''secret'' =
       ([ClickLogin, FillAccount ''user'', FillPassword ''secret'', ClickSubmit,
         SaveStorageState stateFile], Inr ())
   \<and> outcome_of (downloadAipptTemplate login_world no_browser template_url no_options) =
       Inr artifact_x"
  unfolding outcome_of_def by code_simp

section \<open>The session snapshot at context creation\<close>

text \<open>
  Claim C8, as the code has it. A snapshot file that is missing is treated as absent:
  every context of the request is asked for without a storage state, and its creation
  succeeds or fails as the engine decides, never because of the snapshot. A snapshot
  file that exists is passed by its path on every attempt, whatever it holds; when it
  does not parse, both attempts of lines 59 and 63 fail on reading it, no page is opened
  and the request fails.
\<close>

theorem snapshot_missing_or_corrupt:
  "(state_file w = Missing \<longrightarrow>
      newContext w k =
        ([NewContext None], case context_result w k of None \<Rightarrow> Inr () | Some e \<Rightarrow> Inl e) \<and>
      (NewContext arg \<in> set (trace_of (downloadAipptTemplate w m url opts)) \<longrightarrow> arg = None))
   \<and> (state_file w \<noteq> Missing \<longrightarrow>
        NewContext arg \<in> set (trace_of (downloadAipptTemplate w m url opts)) \<longrightarrow>
        arg = Some stateFile)
   \<and> (state_file w = Corrupt \<longrightarrow>
        newContext w k =
          ([NewContext (Some stateFile)], Inl (EngineError ''Error reading storage state'')) \<and>
        NewPage \<notin> set (trace_of (downloadAipptTemplate w m url opts)) \<and>
        (\<forall>art. outcome_of (downloadAipptTemplate w m url opts) \<noteq> Inr art))"
proof (intro conjI impI)
  assume "state_file w = Missing"
  then show "newContext w k =
        ([NewContext None], case context_result w k of None \<Rightarrow> Inr () | Some e \<Rightarrow> Inl e)"
    by (rule newContext_missing)
next
  assume "state_file w = Missing" "NewContext arg \<in> set (trace_of (downloadAipptTemplate w m url opts))"
  then show "arg = None"
    using request_props(2) [of w m url opts] by (auto simp: storage_argument_def)
next
  assume "state_file w \<noteq> Missing" "NewContext arg \<in> set (trace_of (downloadAipptTemplate w m url opts))"
  then show "arg = Some stateFile"
    using request_props(2) [of w m url opts] by (auto simp: storage_argument_def)
next
  assume c: "state_file w = Corrupt"
  then show "newContext w k =
          ([NewContext (Some stateFile)], Inl (EngineError ''Error reading storage state''))"
    by (rule newContext_corrupt)
  from c show np: "NewPage \<notin> set (trace_of (downloadAipptTemplate w m url opts))"
    using request_props(6) [of w m url opts] by blast
  then show "\<forall>art. outcome_of (downloadAipptTemplate w m url opts) \<noteq> Inr art"
    using request_props(7) [of w m url opts] by blast
qed

text \<open>The plain run, whose snapshot file is missing, the same run with a snapshot that
  reads, and with a file that does not parse.\<close>

theorem snapshot_missing_or_corrupt_witness:
  "NewContext None \<in> set (trace_of (downloadAipptTemplate plain_world no_browser template_url no_options))
   \<and> NewContext (Some stateFile) \<notin>
        set (trace_of (downloadAipptTemplate plain_world no_browser template_url no_options))
   \<and> NewContext (Some stateFile) \<in>
        set (trace_of (downloadAipptTemplate (plain_world\<lparr>state_file := Readable\<rparr>) no_browser
               template_url no_options))
   \<and> NewContext None \<notin>
        set (trace_of (downloadAipptTemplate (plain_world\<lparr>state_file := Readable\<rparr>) no_browser
               template_url no_options))
   \<and> NewPage \<notin> set (trace_of (downloadAipptTemplate (plain_world\<lparr>state_file := Corrupt\<rparr>)
         no_browser template_url no_options))
   \<and> outcome_of (downloadAipptTemplate (plain_world\<lparr>state_file := Corrupt\<rparr>) no_browser
         template_url no_options) \<noteq> Inr artifact_x"
proof -
  note missing = snapshot_missing_or_corrupt [THEN conjunct1]
  note present = snapshot_missing_or_corrupt [THEN conjunct2, THEN conjunct1]
  note corrupt = snapshot_missing_or_corrupt [THEN conjunct2, THEN conjunct2]
  have m: "state_file plain_world = Missing" by (simp add: plain_world_def)
  have 1: "NewContext None \<in>
      set (trace_of (downloadAipptTemplate plain_world no_browser template_url no_options))"
    unfolding trace_of_def by code_simp
  have 2: "NewContext (Some stateFile) \<notin>
      set (trace_of (downloadAipptTemplate plain_world no_browser template_url no_options))"
    using missing [of plain_world 0 "Some stateFile" no_browser template_url no_options] m by blast
  have r: "state_file (plain_world\<lparr>state_file := Readable\<rparr>) \<noteq> Missing" by simp
  have 3: "NewContext (Some stateFile) \<in>
        set (trace_of (downloadAipptTemplate (plain_world\<lparr>state_file := Readable\<rparr>) no_browser
               template_url no_options))"
    unfolding trace_of_def by code_simp
  have 4: "NewContext None \<notin>
        set (trace_of (downloadAipptTemplate (plain_world\<lparr>state_file := Readable\<rparr>) no_browser
               template_url no_options))"
    using present [of "plain_world\<lparr>state_file := Readable\<rparr>" None no_browser template_url no_options] r
    by blast
  have c: "state_file (plain_world\<lparr>state_file := Corrupt\<rparr>) = Corrupt" by simp
  from corrupt [of "plain_world\<lparr>state_file := Corrupt\<rparr>" 0 no_browser template_url no_options] c
  have 5: "NewPage \<notin> set (trace_of (downloadAipptTemplate (plain_world\<lparr>state_file := Corrupt\<rparr>)
         no_browser template_url no_options))"
    and 6: "outcome_of (downloadAipptTemplate (plain_world\<lparr>state_file := Corrupt\<rparr>) no_browser
         template_url no_options) \<noteq> Inr artifact_x"
    by blast+
  from 1 2 3 4 5 6 show ?thesis by blast
qed

text \<open>
  The claim as written has a corrupt snapshot degrade to a fresh context. With a file
  that exists and does not parse, the path is passed on line 59 and again on line 63,
  and the request fails with the error of reading it.
\<close>

theorem corrupt_snapshot_fails_counterexample:
  "snd (downloadAipptTemplate (plain_world\<lparr>state_file := Corrupt\<rparr>) no_browser template_url
          no_options) =
     ([MkdTemp, Launch True 0, NewContext (Some stateFile), NewContext (Some stateFile)],
      Inl (EngineError ''Error reading storage state''))"
  by code_simp

section \<open>Releasing the artifact\<close>

lemma materialize_cleanup_dir:
  "snd (materialize w tmpDir sig) = Inr art \<Longrightarrow> cleanup_dir art = tmpDir"
  by (cases sig)
     (auto simp: materialize_download_def materialize_response_def make_artifact_def
        and_then_def call_unit_def ret_def throw_def Let_def split: sum.splits option.splits)

lemma request_body_cleanup_dir:
  assumes "snd (request_body w tmpDir url u p) = Inr art"
  shows "cleanup_dir art = tmpDir"
proof -
  obtain t r where dl: "download_loop (attempts w) 0 3 = (t, r)" by (metis surj_pair)
  have "\<exists>sig. snd (materialize w tmpDir sig) = Inr art"
    using assms dl
    by (cases r; cases "call_unit (Goto url) (goto_result w) :: unit act";
        cases "if login_required w then authenticate w u p else ret ()")
       (auto simp: request_body_def and_then_def split: sum.splits prod.splits
          intro: exI [where P = "\<lambda>sig. snd (materialize w tmpDir sig) = Inr art"]
          dest: sndI)
  then show ?thesis using materialize_cleanup_dir by blast
qed

lemma acquire_cleanup_dir:
  assumes "acquire w m url opts u p = (m', (t, Inr art))"
  shows "mkdtemp_result w = Inr (cleanup_dir art)"
  using acquire_cases [OF assms] request_body_cleanup_dir by fastforce

lemma downloadAipptTemplate_cleanup_dir:
  assumes "outcome_of (downloadAipptTemplate w m url opts) = Inr art"
  shows "mkdtemp_result w = Inr (cleanup_dir art)"
proof -
  from downloadAipptTemplate_cases [of w m url opts] assms
  obtain u p where a: "downloadAipptTemplate w m url opts = acquire w m url opts u p"
    by (auto simp: outcome_of_def)
  obtain m' t r where r: "acquire w m url opts u p = (m', (t, r))" by (metis prod_cases3)
  with a assms have "r = Inr art" by (simp add: outcome_of_def)
  with r show ?thesis using acquire_cleanup_dir by blast
qed

text \<open>
  Claim C9, as the code has it. The release action of a returned artifact removes the
  temporary directory that line 46 made for the request. When the operating system lets
  the directory go, the first call removes it and does not raise, and a second call
  finds nothing, changes nothing and does not raise: no directory is left. A call on a
  directory that is already gone never raises. A removal that the operating system
  refuses is not swallowed: \<^verbatim>\<open>force\<close> covers the missing path only, the closure has no
  handler, and the error reaches the caller.
\<close>

theorem release_is_idempotent:
  "(outcome_of (downloadAipptTemplate w m url opts) = Inr a \<longrightarrow>
      mkdtemp_result w = Inr (cleanup_dir a))
   \<and> (cleanup_dir a \<notin> refused fs \<longrightarrow>
        snd (snd (cleanup a fs)) = Inr () \<and>
        cleanup_dir a \<notin> existing (fst (cleanup a fs)) \<and>
        cleanup a (fst (cleanup a fs)) = (fst (cleanup a fs), ([RemoveDir (cleanup_dir a)], Inr ())))
   \<and> (cleanup_dir a \<notin> existing fs \<longrightarrow> cleanup a fs = (fs, ([RemoveDir (cleanup_dir a)], Inr ())))
   \<and> (cleanup_dir a \<in> existing fs \<and> cleanup_dir a \<in> refused fs \<longrightarrow>
        cleanup a fs = (fs, ([RemoveDir (cleanup_dir a)], Inl (EngineError ''EACCES''))))"
  using downloadAipptTemplate_cleanup_dir [of w m url opts a]
  by (auto simp: cleanup_def rmSync_recursive_force_def)

text \<open>The artifact of the plain run, released twice; released when the directory is
  already gone; released when the removal is refused.\<close>

theorem release_is_idempotent_witness:
  "outcome_of (downloadAipptTemplate plain_world no_browser template_url no_options) = Inr artifact_x
   \<and> mkdtemp_result plain_world = Inr (cleanup_dir artifact_x)
   \<and> snd (snd (cleanup artifact_x disk)) = Inr ()
   \<and> ''/tmp/aippt-AbC123'' \<notin> existing (fst (cleanup artifact_x disk))
   \<and> cleanup artifact_x (fst (cleanup artifact_x disk)) =
       (fst (cleanup artifact_x disk), ([RemoveDir ''/tmp/aippt-AbC123''], Inr ()))
   \<and> cleanup artifact_x empty_disk = (empty_disk, ([RemoveDir ''/tmp/aippt-AbC123''], Inr ()))
   \<and> snd (snd (cleanup artifact_x locked_disk)) = Inl (EngineError ''EACCES'')"
proof -
  note made = release_is_idempotent [THEN conjunct1]
  note twice = release_is_idempotent [THEN conjunct2, THEN conjunct1]
  note gone = release_is_idempotent [THEN conjunct2, THEN conjunct2, THEN conjunct1]
  note raised = release_is_idempotent [THEN conjunct2, THEN conjunct2, THEN conjunct2]
  have 1: "outcome_of (downloadAipptTemplate plain_world no_browser template_url no_options) =
           Inr artifact_x"
    unfolding outcome_of_def by code_simp
  then have 2: "mkdtemp_result plain_world = Inr (cleanup_dir artifact_x)"
    using made [of plain_world no_browser template_url no_options artifact_x] by blast
  have "cleanup_dir artifact_x \<notin> refused disk" by (simp add: disk_def)
  with twice [of artifact_x disk]
  have 3: "snd (snd (cleanup artifact_x disk)) = Inr () \<and>
        cleanup_dir artifact_x \<notin> existing (fst (cleanup artifact_x disk)) \<and>
        cleanup artifact_x (fst (cleanup artifact_x disk)) =
          (fst (cleanup artifact_x disk), ([RemoveDir (cleanup_dir artifact_x)], Inr ()))"
    by blast
  have d: "cleanup_dir artifact_x = ''/tmp/aippt-AbC123''" by (simp add: artifact_x_def)
  have "cleanup_dir artifact_x \<notin> existing empty_disk" by (simp add: empty_disk_def)
  with gone [of artifact_x empty_disk]
  have 4: "cleanup artifact_x empty_disk = (empty_disk, ([RemoveDir (cleanup_dir artifact_x)], Inr ()))"
    by blast
  have "cleanup_dir artifact_x \<in> existing locked_disk \<and> cleanup_dir artifact_x \<in> refused locked_disk"
    by (simp add: locked_disk_def artifact_x_def)
  with raised [of artifact_x locked_disk]
  have 5: "snd (snd (cleanup artifact_x locked_disk)) = Inl (EngineError ''EACCES'')" by simp
  from 1 2 3 4 5 show ?thesis unfolding d by blast
qed

text \<open>
  The claim as written has removal errors swallowed. On \<open>locked_disk\<close> the directory
  exists and its removal is refused: the release action raises, and the directory
  remains.
\<close>

theorem refused_removal_raises_counterexample:
  "cleanup artifact_x locked_disk =
     (locked_disk, ([RemoveDir ''/tmp/aippt-AbC123''], Inl (EngineError ''EACCES'')))
   \<and> ''/tmp/aippt-AbC123'' \<in> existing (fst (cleanup artifact_x locked_disk))"
  by (simp add: cleanup_def rmSync_recursive_force_def artifact_x_def locked_disk_def)

section \<open>Concurrent calls of the session manager\<close>

lemma set_update_cases: "c \<in> set (xs[i := x]) \<Longrightarrow> c = x \<or> c \<in> set xs"
  using set_update_subset_insert [of xs i x] by auto

lemma coalesced_initial: "coalesced (initial n)"
  by (simp add: coalesced_def initial_def)

lemma coalesced_run_caller:
  assumes "coalesced s"
  shows "coalesced (run_caller i s)"
proof (cases "i < length (callers s)")
  case False
  with assms show ?thesis by (simp add: run_caller_def)
next
  case True
  then have mem: "callers s ! i \<in> set (callers s)" by simp
  consider (none) "promises s = []" "sharedBrowser s = None" "launchingBrowser s = None"
      "\<forall>c\<in>set (callers s). c = Start"
    | (inflight) "promises s = [Pending]" "sharedBrowser s = None" "launchingBrowser s = Some 0"
      "\<forall>c\<in>set (callers s). on_first_launch c"
    | (shared) "promises s = [Fulfilled 0]" "sharedBrowser s = Some 0" "connected s 0"
      "launchingBrowser s = None" "\<forall>c\<in>set (callers s). on_first_launch c \<or> c = Returned 0"
    using assms unfolding coalesced_def by fastforce
  then show ?thesis
  proof cases
    case none
    then have "callers s ! i = Start" using mem by blast
    with True none(2,3) have "run_caller i s = start_launch i s"
      by (simp add: run_caller_def)
    moreover have "coalesced (start_launch i s)"
      using none
      by (auto simp: coalesced_def start_launch_def on_first_launch_def dest!: set_update_cases)
    ultimately show ?thesis by simp
  next
    case inflight
    then have c: "on_first_launch (callers s ! i)" using mem by blast
    have "run_caller i s = s \<or> run_caller i s = s\<lparr>callers := (callers s)[i := AwaitInflight 0]\<rparr>"
      using c True inflight(1,2,3)
      by (auto simp: run_caller_def on_first_launch_def settled_def)
    moreover have "coalesced (s\<lparr>callers := (callers s)[i := AwaitInflight 0]\<rparr>)"
      using inflight
      by (auto simp: coalesced_def on_first_launch_def dest!: set_update_cases)
    ultimately show ?thesis using assms by auto
  next
    case shared
    then have c: "on_first_launch (callers s ! i) \<or> callers s ! i = Returned 0" using mem by blast
    have "run_caller i s = s \<or> run_caller i s = s\<lparr>callers := (callers s)[i := Returned 0]\<rparr>"
      using c True shared(1,2,3,4)
      by (auto simp: run_caller_def on_first_launch_def settled_def after_inflight_def)
    moreover have "coalesced (s\<lparr>callers := (callers s)[i := Returned 0]\<rparr>)"
      using shared
      by (auto simp: coalesced_def on_first_launch_def dest!: set_update_cases)
    ultimately show ?thesis using assms by auto
  qed
qed

lemma coalesced_launch_ok:
  assumes "coalesced s"
  shows "coalesced (step (LaunchOk p) s)"
proof (cases "pending s p")
  case False
  with assms show ?thesis by simp
next
  case True
  with assms have "promises s = [Pending]" "p = 0" "\<forall>c\<in>set (callers s). on_first_launch c"
    unfolding coalesced_def pending_def by (auto simp: nth_Cons split: nat.splits)
  with True show ?thesis
    by (auto simp: coalesced_def)
qed

lemma coalesced_step:
  "coalesced s \<Longrightarrow> \<not> is_failure ev \<Longrightarrow> coalesced (step ev s)"
proof (cases ev)
  case (Run i)
  assume "coalesced s"
  with Run show ?thesis by (simp add: coalesced_run_caller)
next
  case (LaunchOk p)
  assume "coalesced s"
  with LaunchOk show ?thesis using coalesced_launch_ok [of s p] by simp
qed (simp_all add: is_failure_def)

lemma coalesced_run:
  "coalesced s \<Longrightarrow> list_all (\<lambda>ev. \<not> is_failure ev) evs \<Longrightarrow> coalesced (run evs s)"
  by (induction evs arbitrary: s) (simp_all add: coalesced_step)

lemma coalesced_consequences:
  assumes "coalesced s"
  shows "launches s \<le> 1"
    and "(\<exists>c\<in>set (callers s). c \<noteq> Start) \<longrightarrow> launches s = 1"
    and "\<forall>c\<in>set (callers s). \<forall>b. c = Returned b \<longrightarrow> b = 0 \<and> promises s = [Fulfilled 0]"
    and "\<forall>c\<in>set (callers s). \<forall>e. c \<noteq> Thrown e"
    and "\<forall>c\<in>set (callers s). \<forall>p. c = AwaitInflight p \<or> c = AwaitOwn p \<longrightarrow> p = 0"
  using assms unfolding coalesced_def launches_def on_first_launch_def by auto

lemma returns_once_shared:
  assumes "coalesced s" "promises s = [Fulfilled 0]" "i < length (callers s)"
  shows "callers (step (Run i) s) ! i = Returned 0"
proof -
  from assms(1,2) have sh: "sharedBrowser s = Some 0" "connected s 0"
    and cs: "\<forall>c\<in>set (callers s). on_first_launch c \<or> c = Returned 0"
    unfolding coalesced_def by auto
  from cs assms(3) have "on_first_launch (callers s ! i) \<or> callers s ! i = Returned 0" by simp
  with assms(2,3) sh show ?thesis
    by (auto simp: run_caller_def on_first_launch_def settled_def after_inflight_def)
qed

lemma callers_run_length: "length (callers (run evs s)) = length (callers s)"
proof (induction evs arbitrary: s)
  case Nil
  then show ?case by simp
next
  case (Cons ev evs)
  have "length (callers (step ev s)) = length (callers s)"
    by (cases ev)
       (auto simp: run_caller_def start_launch_def after_inflight_def
          split: caller.splits option.splits promise.splits)
  with Cons show ?case by simp
qed

text \<open>A caller that runs alone goes through the pool as \<open>getSharedBrowser\<close> says,
  when the launch succeeds and when it fails.\<close>

lemma getSharedBrowser_alone:
  fixes m :: manager
  defines "s0 \<equiv> \<lparr>sharedBrowser = sharedBrowser m, connected = connected m,
                   launchingBrowser = None, promises = [], callers = [Start]\<rparr>"
  shows "callers (run [Run 0, LaunchOk 0, Run 0] s0) =
           [case snd (snd (getSharedBrowser m (Inr 0) h sl)) of
              Inr b \<Rightarrow> Returned b | Inl e \<Rightarrow> Thrown e]"
    and "sharedBrowser (run [Run 0, LaunchOk 0, Run 0] s0) =
           sharedBrowser (fst (getSharedBrowser m (Inr 0) h sl))"
    and "connected (run [Run 0, LaunchOk 0, Run 0] s0) =
           connected (fst (getSharedBrowser m (Inr 0) h sl))"
    and "launches (run [Run 0, LaunchOk 0, Run 0] s0) =
           length (fst (snd (getSharedBrowser m (Inr 0) h sl)))"
    and "launchingBrowser (run [Run 0, LaunchOk 0, Run 0] s0) = None"
    and "callers (run [Run 0, LaunchFails 0 e, Run 0] s0) =
           [case snd (snd (getSharedBrowser m (Inl e) h sl)) of
              Inr b \<Rightarrow> Returned b | Inl e \<Rightarrow> Thrown e]"
    and "sharedBrowser (run [Run 0, LaunchFails 0 e, Run 0] s0) =
           sharedBrowser (fst (getSharedBrowser m (Inl e) h sl))"
    and "launchingBrowser (run [Run 0, LaunchFails 0 e, Run 0] s0) = None"
  unfolding s0_def
  by (auto simp: getSharedBrowser_def launch_browser_def ret_def run_caller_def start_launch_def
        pending_def launches_def split: option.splits)

text \<open>
  Claim C5, as the code has it. When \<open>n\<close> calls arrive before any browser exists
  and, however the callers are scheduled, no launch fails and no browser disconnects: at
  most one launch is ever made, exactly one as soon as a caller has entered; every caller
  inside is suspended on that launch; none throws; whoever returns, returns its browser;
  and once the launch has succeeded, a caller returns that browser the next time it runs.
  When a launch fails, the in-flight marker is reset, the caller that started the launch
  throws the failure, and a later call, finding neither browser nor marker, starts a
  launch again. A caller that was waiting on the failed launch ignores the failure (line
  12) and, with no browser shared, goes on to start a launch itself. When the shared
  browser disconnects, the cached reference is cleared, so that the next call launches
  afresh.
\<close>

theorem launch_coalescing:
  "(list_all (\<lambda>ev. \<not> is_failure ev) evs \<longrightarrow>
      launches (run evs (initial n)) \<le> 1 \<and>
      ((\<exists>c\<in>set (callers (run evs (initial n))). c \<noteq> Start) \<longrightarrow>
         launches (run evs (initial n)) = 1) \<and>
      (\<forall>c\<in>set (callers (run evs (initial n))).
          (\<forall>e. c \<noteq> Thrown e) \<and> (\<forall>b. c = Returned b \<longrightarrow> b = 0) \<and>
          (\<forall>p. c = AwaitInflight p \<or> c = AwaitOwn p \<longrightarrow> p = 0)) \<and>
      coalesced (run evs (initial n)))
   \<and> (coalesced s \<and> promises s = [Fulfilled 0] \<and> i < length (callers s) \<longrightarrow>
        callers (step (Run i) s) ! i = Returned 0)
   \<and> (pending s p \<longrightarrow>
        launchingBrowser (step (LaunchFails p e) s) = None \<and>
        promises (step (LaunchFails p e) s) ! p = Rejected e \<and>
        sharedBrowser (step (LaunchFails p e) s) = sharedBrowser s)
   \<and> (i < length (callers s) \<and> callers s ! i = AwaitOwn p \<and> p < length (promises s) \<and>
        promises s ! p = Rejected e \<longrightarrow>
        callers (step (Run i) s) ! i = Thrown e)
   \<and> (i < length (callers s) \<and> callers s ! i = AwaitInflight p \<and> p < length (promises s) \<and>
        promises s ! p = Rejected e \<and> sharedBrowser s = None \<longrightarrow>
        step (Run i) s = start_launch i s)
   \<and> (i < length (callers s) \<and> callers s ! i = Start \<and> sharedBrowser s = None \<and>
        launchingBrowser s = None \<longrightarrow>
        step (Run i) s = start_launch i s)
   \<and> launches (start_launch i s) = Suc (launches s)
   \<and> launchingBrowser (start_launch i s) = Some (launches s)
   \<and> (connected s b \<longrightarrow>
        sharedBrowser (step (Disconnect b) s) = None \<and> \<not> connected (step (Disconnect b) s) b)"
proof (intro conjI impI)
  assume ok: "list_all (\<lambda>ev. \<not> is_failure ev) evs"
  have c: "coalesced (run evs (initial n))"
    using coalesced_run [OF coalesced_initial ok] .
  then show "coalesced (run evs (initial n))" .
  from coalesced_consequences [OF c]
  show "launches (run evs (initial n)) \<le> 1"
    and "(\<exists>c\<in>set (callers (run evs (initial n))). c \<noteq> Start) \<Longrightarrow>
         launches (run evs (initial n)) = 1"
    and "\<forall>c\<in>set (callers (run evs (initial n))).
          (\<forall>e. c \<noteq> Thrown e) \<and> (\<forall>b. c = Returned b \<longrightarrow> b = 0) \<and>
          (\<forall>p. c = AwaitInflight p \<or> c = AwaitOwn p \<longrightarrow> p = 0)"
    by blast+
next
  assume "coalesced s \<and> promises s = [Fulfilled 0] \<and> i < length (callers s)"
  then show "callers (step (Run i) s) ! i = Returned 0"
    using returns_once_shared by blast
next
  assume p: "pending s p"
  then show "launchingBrowser (step (LaunchFails p e) s) = None"
    and "promises (step (LaunchFails p e) s) ! p = Rejected e"
    and "sharedBrowser (step (LaunchFails p e) s) = sharedBrowser s"
    by (simp_all add: pending_def)
next
  assume "i < length (callers s) \<and> callers s ! i = AwaitOwn p \<and> p < length (promises s) \<and>
        promises s ! p = Rejected e"
  then show "callers (step (Run i) s) ! i = Thrown e"
    by (simp add: run_caller_def)
next
  assume "i < length (callers s) \<and> callers s ! i = AwaitInflight p \<and> p < length (promises s) \<and>
        promises s ! p = Rejected e \<and> sharedBrowser s = None"
  then show "step (Run i) s = start_launch i s"
    by (simp add: run_caller_def settled_def after_inflight_def)
next
  assume "i < length (callers s) \<and> callers s ! i = Start \<and> sharedBrowser s = None \<and>
        launchingBrowser s = None"
  then show "step (Run i) s = start_launch i s"
    by (simp add: run_caller_def)
next
  show "launches (start_launch i s) = Suc (launches s)"
    by (simp add: launches_def start_launch_def)
  show "launchingBrowser (start_launch i s) = Some (launches s)"
    by (simp add: launches_def start_launch_def)
next
  assume "connected s b"
  then show "sharedBrowser (step (Disconnect b) s) = None"
    and "\<not> connected (step (Disconnect b) s) b"
    by simp_all
qed

text \<open>Three calls: each enters, the launch succeeds, each resumes. Then, step by
  step, a launch that fails with two callers inside and a third yet to come, and a
  browser that disconnects before the second call.\<close>

theorem launch_coalescing_witness:
  "callers (run [Run 0, Run 1, Run 2, LaunchOk 0, Run 2, Run 0, Run 1] (initial 3)) =
     [Returned 0, Returned 0, Returned 0]
   \<and> launches (run [Run 0, Run 1, Run 2, LaunchOk 0, Run 2, Run 0, Run 1] (initial 3)) = 1
   \<and> sharedBrowser (run [Run 0, Run 1, Run 2, LaunchOk 0, Run 2, Run 0, Run 1] (initial 3)) = Some 0
   \<and> callers (step (Run 1) (run [Run 0, Run 1, LaunchOk 0] (initial 2))) ! 1 = Returned 0
   \<and> launchingBrowser (step (LaunchFails 0 spawn_failed) (run [Run 0, Run 1] (initial 3))) = None
   \<and> callers (step (Run 0) (run [Run 0, Run 1, LaunchFails 0 spawn_failed] (initial 3))) ! 0 =
       Thrown spawn_failed
   \<and> launches (step (Run 1) (run [Run 0, Run 1, LaunchFails 0 spawn_failed] (initial 3))) = 2
   \<and> launches (step (Run 2) (run [Run 0, Run 1, LaunchFails 0 spawn_failed] (initial 3))) = 2
   \<and> sharedBrowser (step (Disconnect 0) (run [Run 0, LaunchOk 0] (initial 2))) = None
   \<and> launches (step (Run 1) (step (Disconnect 0) (run [Run 0, LaunchOk 0] (initial 2)))) = 2"
proof -
  note safe = launch_coalescing [THEN conjunct1]
  note returns = launch_coalescing [THEN conjunct2, THEN conjunct1]
  note reset = launch_coalescing [THEN conjunct2, THEN conjunct2, THEN conjunct1]
  note starter = launch_coalescing [THEN conjunct2, THEN conjunct2, THEN conjunct2, THEN conjunct1]
  note waiter = launch_coalescing
    [THEN conjunct2, THEN conjunct2, THEN conjunct2, THEN conjunct2, THEN conjunct1]
  note retry = launch_coalescing
    [THEN conjunct2, THEN conjunct2, THEN conjunct2, THEN conjunct2, THEN conjunct2,
     THEN conjunct1]
  note counted = launch_coalescing
    [THEN conjunct2, THEN conjunct2, THEN conjunct2, THEN conjunct2, THEN conjunct2,
     THEN conjunct2, THEN conjunct1]
  note cleared = launch_coalescing
    [THEN conjunct2, THEN conjunct2, THEN conjunct2, THEN conjunct2, THEN conjunct2,
     THEN conjunct2, THEN conjunct2, THEN conjunct2]
  let ?evs = "[Run 0, Run 1, Run 2, LaunchOk 0, Run 2, Run 0, Run 1]"
  have 1: "callers (run ?evs (initial 3)) = [Returned 0, Returned 0, Returned 0]"
    by code_simp
  have ok: "list_all (\<lambda>ev. \<not> is_failure ev) ?evs" by (simp add: is_failure_def)
  from safe [of ?evs 3] ok
  have "(\<exists>c\<in>set (callers (run ?evs (initial 3))). c \<noteq> Start) \<longrightarrow>
         launches (run ?evs (initial 3)) = 1"
    and c: "coalesced (run ?evs (initial 3))"
    by blast+
  then have 2: "launches (run ?evs (initial 3)) = 1" unfolding 1 by simp
  then have "promises (run ?evs (initial 3)) \<noteq> []" by (auto simp: launches_def)
  with c 1 have 3: "sharedBrowser (run ?evs (initial 3)) = Some 0"
    unfolding coalesced_def by (auto simp: on_first_launch_def)
  let ?shared = "run [Run 0, Run 1, LaunchOk 0] (initial 2)"
  have "list_all (\<lambda>ev. \<not> is_failure ev) [Run 0, Run 1, LaunchOk 0]" by (simp add: is_failure_def)
  with safe [of "[Run 0, Run 1, LaunchOk 0]" 2] have "coalesced ?shared" by blast
  moreover have "promises ?shared = [Fulfilled 0]" by code_simp
  moreover have "1 < length (callers ?shared)" by code_simp
  ultimately have 4: "callers (step (Run 1) ?shared) ! 1 = Returned 0"
    using returns [of ?shared 1] by blast
  have "pending (run [Run 0, Run 1] (initial 3)) 0" by code_simp
  then have 5: "launchingBrowser (step (LaunchFails 0 spawn_failed) (run [Run 0, Run 1] (initial 3))) = None"
    using reset [of "run [Run 0, Run 1] (initial 3)" 0 spawn_failed] by blast
  let ?failed = "run [Run 0, Run 1, LaunchFails 0 spawn_failed] (initial 3)"
  have len: "0 < length (callers ?failed)" "1 < length (callers ?failed)"
    "2 < length (callers ?failed)" "0 < length (promises ?failed)"
    by code_simp+
  have st: "callers ?failed ! 0 = AwaitOwn 0" "callers ?failed ! 1 = AwaitInflight 0"
    "callers ?failed ! 2 = Start" "promises ?failed ! 0 = Rejected spawn_failed"
    "sharedBrowser ?failed = None" "launchingBrowser ?failed = None" "launches ?failed = 1"
    by code_simp+
  have 6: "callers (step (Run 0) ?failed) ! 0 = Thrown spawn_failed"
    using starter [of 0 ?failed 0 spawn_failed] len st by blast
  have "step (Run 1) ?failed = start_launch 1 ?failed"
    using waiter [of 1 ?failed 0 spawn_failed] len st by blast
  then have 7: "launches (step (Run 1) ?failed) = 2"
    using counted [of 1 ?failed] st(7) by simp
  have "step (Run 2) ?failed = start_launch 2 ?failed"
    using retry [of 2 ?failed] len st by blast
  then have 8: "launches (step (Run 2) ?failed) = 2"
    using counted [of 2 ?failed] st(7) by simp
  let ?one = "run [Run 0, LaunchOk 0] (initial 2)"
  have "connected ?one 0" by code_simp
  then have 9: "sharedBrowser (step (Disconnect 0) ?one) = None"
    using cleared [of ?one 0] by blast
  let ?gone = "step (Disconnect 0) ?one"
  have g: "1 < length (callers ?gone)" "callers ?gone ! 1 = Start" "launchingBrowser ?gone = None"
    "launches ?gone = 1"
    by code_simp+
  have "step (Run 1) ?gone = start_launch 1 ?gone"
    using retry [of 1 ?gone] g 9 by blast
  then have 10: "launches (step (Run 1) ?gone) = 2"
    using counted [of 1 ?gone] g(4) by simp
  from 1 2 3 4 5 6 7 8 9 10 show ?thesis by blast
qed

text \<open>
  The claim as written has the failure of the launch propagate to all waiters, and one
  launch for \<open>n\<close> concurrent calls. Three calls enter, the launch fails, each resumes:
  the first throws, the two that waited each start a launch, three launches in all, and
  when these succeed the two return a browser.
\<close>

theorem waiters_relaunch_counterexample:
  "callers (run [Run 0, Run 1, Run 2, LaunchFails 0 (EngineError ''spawn failed''),
                 Run 0, Run 1, Run 2] (initial 3)) =
     [Thrown (EngineError ''spawn failed''), AwaitOwn 1, AwaitOwn 2]
   \<and> launches (run [Run 0, Run 1, Run 2, LaunchFails 0 (EngineError ''spawn failed''),
                    Run 0, Run 1, Run 2] (initial 3)) = 3
   \<and> callers (run [Run 0, Run 1, Run 2, LaunchFails 0 (EngineError ''spawn failed''),
                   Run 0, Run 1, Run 2, LaunchOk 1, LaunchOk 2, Run 1, Run 2] (initial 3)) =
     [Thrown (EngineError ''spawn failed''), Returned 1, Returned 2]"
  by code_simp

end
